theory Spec2Isabelle
  imports Main
begin

section \<open>Data model\<close>

text \<open>
  \<^verbatim>\<open>BreakPoint\<close> (break-point.ts, used throughout): a named media-query range. The optional
  flag \<^verbatim>\<open>overlapping\<close> is a boolean here, an absent flag being \<open>False\<close>. The fields
  \<^verbatim>\<open>alias\<close>, \<^verbatim>\<open>mediaQuery\<close> and \<^verbatim>\<open>suffix\<close> carry the prefix \<open>bp_\<close>: \<open>alias\<close> is a
  keyword of Isabelle, and \<^verbatim>\<open>MediaChange\<close> has fields named like the other two.
\<close>

record BreakPoint =
  bp_alias :: string
  bp_mediaQuery :: string
  bp_suffix :: string
  overlapping :: bool

text \<open>
  \<^verbatim>\<open>MediaChange\<close>: the change event. The fields are the ones the sources read
  (\<^verbatim>\<open>change.matches\<close>, \<^verbatim>\<open>change.mediaQuery\<close>, \<^verbatim>\<open>change.mqAlias\<close>) and the suffix that
  alias injection fills in.
\<close>

record MediaChange =
  matches :: bool
  mediaQuery :: string
  mqAlias :: string
  suffix :: string

text \<open>
  Modelled from the spec: the constructor of \<^verbatim>\<open>MediaChange\<close> (media-change.ts is not among
  the sources). \<^verbatim>\<open>new MediaChange(matches, mediaQuery)\<close> is a raw event: alias and suffix
  are empty until the alias information is injected.
\<close>

definition MediaChange_new :: "bool \<Rightarrow> string \<Rightarrow> MediaChange" where
  "MediaChange_new m q = \<lparr>matches = m, mediaQuery = q, mqAlias = '''', suffix = ''''\<rparr>"

text \<open>
  JavaScript's \<^verbatim>\<open>a || b\<close> on values that are an object or \<^verbatim>\<open>null\<close>: an object is truthy,
  \<^verbatim>\<open>null\<close> is falsy.
\<close>

definition js_or :: "'a option \<Rightarrow> 'a option \<Rightarrow> 'a option" where
  "js_or a b = (case a of Some x \<Rightarrow> Some x | None \<Rightarrow> b)"

section \<open>ChangeQueue (change-queue.ts)\<close>

text \<open>
  The state of a \<^verbatim>\<open>ChangeQueue\<close>. The callback \<^verbatim>\<open>_notify\<close> is modelled by the list of the
  arguments it is called with, in call order; \<open>None\<close> is a call \<^verbatim>\<open>_notify(null)\<close>.
\<close>

record ChangeQueue =
  enableAsync :: bool
  breakpoints :: "BreakPoint list"
  deactivated :: "MediaChange list"
  activated :: "MediaChange list"
  debouncing :: bool

definition ChangeQueue_new :: "BreakPoint list \<Rightarrow> ChangeQueue" where
  "ChangeQueue_new bps =
     \<lparr>enableAsync = False, breakpoints = bps, deactivated = [], activated = [],
      debouncing = False\<rparr>"

definition queueChanges :: "ChangeQueue \<Rightarrow> MediaChange \<Rightarrow> ChangeQueue" where
  "queueChanges cq change =
     (if matches change then cq\<lparr>activated := activated cq @ [change]\<rparr>
      else cq\<lparr>deactivated := deactivated cq @ [change]\<rparr>)"

text \<open>\<^verbatim>\<open>_findActivationFor\<close>: a \<^verbatim>\<open>reduce\<close> over the activated buffer, starting from \<^verbatim>\<open>null\<close>.\<close>

definition findActivationFor :: "ChangeQueue \<Rightarrow> BreakPoint \<Rightarrow> MediaChange option" where
  "findActivationFor cq bp =
     foldl (\<lambda>result change.
              js_or result (if mediaQuery change = bp_mediaQuery bp then Some change else None))
           None (activated cq)"

text \<open>
  \<^verbatim>\<open>_announceActivation\<close>: a \<^verbatim>\<open>reduce\<close> over the breakpoints, one call of \<^verbatim>\<open>_notify\<close> with
  its result (which may be \<^verbatim>\<open>null\<close>), then the activated buffer is emptied.
\<close>

definition findFirstActivation :: "ChangeQueue \<Rightarrow> MediaChange option" where
  "findFirstActivation cq =
     foldl (\<lambda>change bp. js_or change (findActivationFor cq bp)) None (breakpoints cq)"

definition announceActivation :: "ChangeQueue \<Rightarrow> ChangeQueue \<times> MediaChange option list" where
  "announceActivation cq = (cq\<lparr>activated := []\<rparr>, [findFirstActivation cq])"

definition announceDeactivations :: "ChangeQueue \<Rightarrow> ChangeQueue \<times> MediaChange option list" where
  "announceDeactivations cq = (cq\<lparr>deactivated := []\<rparr>, map Some (deactivated cq))"

text \<open>The closure \<^verbatim>\<open>processQueue\<close> of \<^verbatim>\<open>onMediaChange\<close>: one flush.\<close>

definition processQueue :: "ChangeQueue \<Rightarrow> ChangeQueue \<times> MediaChange option list" where
  "processQueue cq =
     (let (cq1, out1) = announceDeactivations cq;
          (cq2, out2) = announceActivation cq1
      in (cq2\<lparr>debouncing := False\<rparr>, out1 @ out2))"

text \<open>
  \<^verbatim>\<open>onMediaChange\<close>. With \<^verbatim>\<open>enableAsync\<close> the flush is handed to \<^verbatim>\<open>setTimeout\<close>: nothing is
  notified by the call, and the flush runs when the timer fires (\<open>timerFires\<close> below).
\<close>

definition onMediaChange :: "ChangeQueue \<Rightarrow> MediaChange \<Rightarrow> ChangeQueue \<times> MediaChange option list" where
  "onMediaChange cq change =
     (let cq1 = queueChanges cq change in
      if \<not> debouncing cq1 then
        (let cq2 = cq1\<lparr>debouncing := True\<rparr> in
         if enableAsync cq2 then (cq2, []) else processQueue cq2)
      else (cq1, []))"

text \<open>
  The timer set by \<^verbatim>\<open>setTimeout(processQueue, 0)\<close>. Between two calls a timer is pending
  exactly when \<^verbatim>\<open>_debouncing\<close> is set: the synchronous path clears the flag before it
  returns, and no second timer is set while the flag is up.
\<close>

definition timerFires :: "ChangeQueue \<Rightarrow> ChangeQueue \<times> MediaChange option list" where
  "timerFires cq = (if debouncing cq then processQueue cq else (cq, []))"

text \<open>What happens to a queue from outside: a raw change arrives, the pending timer fires, or
  the public field \<^verbatim>\<open>enableAsync\<close> is assigned.\<close>

datatype QueueInput = RawChange MediaChange | TimerFires | SetAsync bool

fun queueStep :: "ChangeQueue \<Rightarrow> QueueInput \<Rightarrow> ChangeQueue \<times> MediaChange option list" where
  "queueStep cq (RawChange change) = onMediaChange cq change"
| "queueStep cq TimerFires = timerFires cq"
| "queueStep cq (SetAsync b) = (cq\<lparr>enableAsync := b\<rparr>, [])"

fun queueRun :: "ChangeQueue \<Rightarrow> QueueInput list \<Rightarrow> ChangeQueue \<times> MediaChange option list" where
  "queueRun cq [] = (cq, [])"
| "queueRun cq (i # is) =
     (let (cq1, out1) = queueStep cq i; (cq2, out2) = queueRun cq1 is in (cq2, out1 @ out2))"

text \<open>The events among the notifications: the calls of \<^verbatim>\<open>_notify\<close> with an event, not \<^verbatim>\<open>null\<close>.\<close>

definition emitted :: "MediaChange option list \<Rightarrow> MediaChange list" where
  "emitted outs = concat (map (\<lambda>out. case out of None \<Rightarrow> [] | Some c \<Rightarrow> [c]) outs)"

text \<open>
  The buffers hold what \<^verbatim>\<open>_queueChanges\<close> put there: activations in \<^verbatim>\<open>_activated\<close>,
  deactivations in \<^verbatim>\<open>_deactivated\<close>.
\<close>

definition sortedBuffers :: "ChangeQueue \<Rightarrow> bool" where
  "sortedBuffers cq =
     (list_all matches (activated cq) \<and> list_all (\<lambda>c. \<not> matches c) (deactivated cq))"

text \<open>
  The priority resolution in the words of the specification: the first breakpoint, in registry
  order, that has a queued activation of its query, and the first queued activation of that
  query.
\<close>

definition firstRangeWithActivation :: "BreakPoint list \<Rightarrow> MediaChange list \<Rightarrow> BreakPoint option" where
  "firstRangeWithActivation bps act =
     find (\<lambda>bp. list_ex (\<lambda>c. mediaQuery c = bp_mediaQuery bp) act) bps"

definition resolvedActivation :: "BreakPoint list \<Rightarrow> MediaChange list \<Rightarrow> MediaChange option" where
  "resolvedActivation bps act =
     (case firstRangeWithActivation bps act of
        None \<Rightarrow> None
      | Some bp \<Rightarrow> find (\<lambda>c. mediaQuery c = bp_mediaQuery bp) act)"

section \<open>BreakPointRegistry\<close>

text \<open>
  Modelled from the spec: the class \<^verbatim>\<open>BreakPointRegistry\<close> (break-point-registry.ts is not
  among the sources; the sources call its \<^verbatim>\<open>items\<close>, \<^verbatim>\<open>overlappings\<close>, \<^verbatim>\<open>findByAlias\<close> and
  \<^verbatim>\<open>findByQuery\<close>). The registry is the ordered list of ranges, the position in it being
  the priority.
\<close>

record BreakPointRegistry =
  items :: "BreakPoint list"

text \<open>
  Modelled from the spec: the getter \<^verbatim>\<open>overlappings\<close> of the registry, "all entries flagged
  overlapping, in registry order", as a list of its own.
\<close>

definition overlappings :: "BreakPointRegistry \<Rightarrow> BreakPoint list" where
  "overlappings reg = filter overlapping (items reg)"

text \<open>
  Modelled from the spec: the lookups \<^verbatim>\<open>findByAlias\<close> and \<^verbatim>\<open>findByQuery\<close> of the registry,
  which return the range with that alias, or with that query, or none.
\<close>

definition findByAlias :: "BreakPointRegistry \<Rightarrow> string \<Rightarrow> BreakPoint option" where
  "findByAlias reg a = find (\<lambda>bp. bp_alias bp = a) (items reg)"

definition findByQuery :: "BreakPointRegistry \<Rightarrow> string \<Rightarrow> BreakPoint option" where
  "findByQuery reg q = find (\<lambda>bp. bp_mediaQuery bp = q) (items reg)"

text \<open>
  Modelled from the spec: \<^verbatim>\<open>mergeAlias\<close> (utils/add-alias.ts is not among the sources):
  "alias injection produces a new event carrying the original's query/matches plus
  alias/suffix"; without a range the event is left as it is.
\<close>

definition mergeAlias :: "MediaChange \<Rightarrow> BreakPoint option \<Rightarrow> MediaChange" where
  "mergeAlias change bp =
     (case bp of
        None \<Rightarrow> change
      | Some b \<Rightarrow> change\<lparr>mqAlias := bp_alias b, suffix := bp_suffix b\<rparr>)"

section \<open>MatchMedia (match-media.ts)\<close>

text \<open>
  The browser, as far as \<^verbatim>\<open>_buildMQL\<close> reads it: \<^verbatim>\<open>window.matchMedia(query).matches\<close>, the
  current evaluation of a query, and whether the lists it returns have \<^verbatim>\<open>addListener\<close>.
\<close>

record Window =
  win_matches :: "string \<Rightarrow> bool"
  win_canListen :: bool

text \<open>
  A listener is the closure \<^verbatim>\<open>onMQLEvent\<close> of \<^verbatim>\<open>registerQuery\<close>: it holds the callback and
  the query it was registered with. \<open>'cb\<close> is the type of callbacks; a call of a callback is
  the pair of the callback and the event it is called with.
\<close>

type_synonym 'cb listener = "'cb \<times> string"

text \<open>
  The interface \<^verbatim>\<open>MediaQueryList\<close>. \<open>mql_listens\<close> is false for the stub that \<^verbatim>\<open>_buildMQL\<close>
  returns when the window cannot listen: its \<^verbatim>\<open>addListener\<close> does nothing.
\<close>

record 'cb MediaQueryList =
  mql_matches :: bool
  media :: string
  mql_listeners :: "'cb listener list"
  mql_listens :: bool

definition addListener :: "'cb MediaQueryList \<Rightarrow> 'cb listener \<Rightarrow> 'cb MediaQueryList" where
  "addListener mql l =
     (if mql_listens mql then mql\<lparr>mql_listeners := mql_listeners mql @ [l]\<rparr> else mql)"

definition onMQLEvent :: "'cb listener \<Rightarrow> 'cb MediaQueryList \<Rightarrow> 'cb \<times> MediaChange" where
  "onMQLEvent l e = (fst l, MediaChange_new (mql_matches e) (snd l))"

text \<open>
  \<^verbatim>\<open>_buildMQL\<close>. The style element that \<^verbatim>\<open>prepareQueryCSS\<close> injects is outside the model; it
  has no part in what is returned.
\<close>

definition buildMQL :: "Window \<Rightarrow> string \<Rightarrow> 'cb MediaQueryList" where
  "buildMQL win query =
     (if win_canListen win
      then \<lparr>mql_matches = win_matches win query, media = query, mql_listeners = [],
            mql_listens = True\<rparr>
      else \<lparr>mql_matches = (query = ''all'' \<or> query = ''''), media = query, mql_listeners = [],
            mql_listens = False\<rparr>)"

text \<open>
  The state of \<^verbatim>\<open>MatchMedia\<close>: the map \<^verbatim>\<open>_registry\<close>, and a log \<open>built\<close> of the queries
  \<^verbatim>\<open>_buildMQL\<close> was called with, one entry per \<^verbatim>\<open>MediaQueryList\<close> obtained from the window.
\<close>

record 'cb MatchMedia =
  registry :: "string \<rightharpoonup> 'cb MediaQueryList"
  built :: "string list"

definition MatchMedia_new :: "'cb MatchMedia" where
  "MatchMedia_new = \<lparr>registry = Map.empty, built = []\<rparr>"

definition MatchMedia_isActive :: "'cb MatchMedia \<Rightarrow> string \<Rightarrow> bool" where
  "MatchMedia_isActive mm mq =
     (case registry mm mq of Some mql \<Rightarrow> mql_matches mql | None \<Rightarrow> False)"

text \<open>
  \<^verbatim>\<open>registerQuery\<close>; the second component is the calls of callbacks made before it returns.
  An empty string is falsy: \<^verbatim>\<open>if (mediaQuery)\<close> skips it.
\<close>

definition registerQuery ::
  "Window \<Rightarrow> 'cb MatchMedia \<Rightarrow> string \<Rightarrow> 'cb \<Rightarrow> 'cb MatchMedia \<times> ('cb \<times> MediaChange) list" where
  "registerQuery win mm mq callback =
     (if mq \<noteq> '''' then
        (let (mql0, log) =
               (case registry mm mq of
                  Some m \<Rightarrow> (m, built mm)
                | None \<Rightarrow> (buildMQL win mq, built mm @ [mq]));
             mql = addListener mql0 (callback, mq)
         in (mm\<lparr>registry := (registry mm)(mq \<mapsto> mql), built := log\<rparr>,
             if mql_matches mql then [onMQLEvent (callback, mq) mql] else []))
      else (mm, []))"

fun registerQueries ::
  "Window \<Rightarrow> 'cb MatchMedia \<Rightarrow> (string \<times> 'cb) list \<Rightarrow> 'cb MatchMedia \<times> ('cb \<times> MediaChange) list" where
  "registerQueries win mm [] = (mm, [])"
| "registerQueries win mm ((mq, callback) # calls) =
     (let (mm1, out1) = registerQuery win mm mq callback;
          (mm2, out2) = registerQueries win mm1 calls
      in (mm2, out1 @ out2))"

text \<open>
  The browser's side of a \<^verbatim>\<open>MediaQueryList\<close>: when the evaluation of its query changes to
  \<open>b\<close>, the list calls every listener added to it, in the order added, with itself.
\<close>

definition mqlChange ::
  "'cb MatchMedia \<Rightarrow> string \<Rightarrow> bool \<Rightarrow> 'cb MatchMedia \<times> ('cb \<times> MediaChange) list" where
  "mqlChange mm mq b =
     (case registry mm mq of
        None \<Rightarrow> (mm, [])
      | Some mql \<Rightarrow>
          (let e = mql\<lparr>mql_matches := b\<rparr>
           in (mm\<lparr>registry := (registry mm)(mq \<mapsto> e)\<rparr>,
               map (\<lambda>l. onMQLEvent l e) (mql_listeners e))))"

text \<open>The current evaluation of a query as \<^verbatim>\<open>registerQuery\<close> will read it: \<^verbatim>\<open>matches\<close> of the
  registered list, or of the list the window returns for a query not yet registered.\<close>

definition currentlyMatches :: "Window \<Rightarrow> 'cb MatchMedia \<Rightarrow> string \<Rightarrow> bool" where
  "currentlyMatches win mm mq =
     (case registry mm mq of
        Some mql \<Rightarrow> mql_matches mql
      | None \<Rightarrow> mql_matches (buildMQL win mq :: 'cb MediaQueryList))"

text \<open>
  The callbacks that a sequence of \<^verbatim>\<open>registerQuery\<close> calls registered for a query, in call
  order, and the \<^verbatim>\<open>MediaQueryList\<close> that \<^verbatim>\<open>MatchMedia\<close> holds for the query after these calls.
\<close>

definition callbacksFor :: "(string \<times> 'cb) list \<Rightarrow> string \<Rightarrow> 'cb list" where
  "callbacksFor regs q = map snd (filter (\<lambda>r. fst r = q) regs)"

definition listAfter :: "Window \<Rightarrow> (string \<times> 'cb) list \<Rightarrow> string \<Rightarrow> 'cb MediaQueryList" where
  "listAfter win regs q =
     \<lparr>mql_matches = mql_matches (buildMQL win q :: 'cb MediaQueryList), media = q,
      mql_listeners = (if win_canListen win then map (\<lambda>cb. (cb, q)) (callbacksFor regs q) else []),
      mql_listens = win_canListen win\<rparr>"

section \<open>The getters of MediaMonitor (media-monitor.ts)\<close>

datatype error = TypeError

definition MediaMonitor_activeOverlaps ::
  "BreakPointRegistry \<Rightarrow> 'cb MatchMedia \<Rightarrow> BreakPoint list" where
  "MediaMonitor_activeOverlaps reg mm =
     filter (\<lambda>bp. MatchMedia_isActive mm (bp_mediaQuery bp)) (rev (overlappings reg))"

text \<open>
  \<^verbatim>\<open>active\<close>: the \<^verbatim>\<open>forEach\<close> over the reversed copy of the items is a fold with the variable
  \<^verbatim>\<open>found\<close>. On an empty registry \<^verbatim>\<open>this.breakpoints[0]\<close> is \<^verbatim>\<open>undefined\<close>, and reading its
  \<^verbatim>\<open>mediaQuery\<close> throws a TypeError.
\<close>

definition MediaMonitor_active ::
  "BreakPointRegistry \<Rightarrow> 'cb MatchMedia \<Rightarrow> error + BreakPoint option" where
  "MediaMonitor_active reg mm =
     (let found =
            foldl (\<lambda>found bp.
                     if bp_alias bp \<noteq> '''' then
                       (if found = None \<and> MatchMedia_isActive mm (bp_mediaQuery bp)
                        then Some bp else found)
                     else found)
                  None (rev (items reg))
      in case found of
           Some bp \<Rightarrow> Inr (Some bp)
         | None \<Rightarrow>
             (case items reg of
                [] \<Rightarrow> Inl TypeError
              | first # _ \<Rightarrow>
                  Inr (if MatchMedia_isActive mm (bp_mediaQuery first) then Some first else None)))"

definition MediaMonitor_isActive :: "BreakPointRegistry \<Rightarrow> 'cb MatchMedia \<Rightarrow> string \<Rightarrow> bool" where
  "MediaMonitor_isActive reg mm a =
     (let bp = js_or (findByAlias reg a) (findByQuery reg a)
      in MatchMedia_isActive mm (case bp of Some b \<Rightarrow> bp_mediaQuery b | None \<Rightarrow> a))"

section \<open>The streams of MediaMonitor and MediaService\<close>

text \<open>
  The \<^verbatim>\<open>BehaviorSubject\<close> of rxjs, which both classes use as their source: it keeps the
  latest value, \<^verbatim>\<open>next\<close> stores a value and hands it to every subscription in the order
  the subscriptions were made, and a new subscription is handed the latest value at once.
  \<open>'s\<close> is the type of subscriptions; the second components are the values handed out.
\<close>

record ('s, 'a) BehaviorSubject =
  bs_value :: 'a
  bs_observers :: "'s list"

definition BehaviorSubject_new :: "'a \<Rightarrow> ('s, 'a) BehaviorSubject" where
  "BehaviorSubject_new v = \<lparr>bs_value = v, bs_observers = []\<rparr>"

definition bs_next :: "('s, 'a) BehaviorSubject \<Rightarrow> 'a \<Rightarrow> ('s, 'a) BehaviorSubject \<times> ('s \<times> 'a) list" where
  "bs_next subj v = (subj\<lparr>bs_value := v\<rparr>, map (\<lambda>ob. (ob, v)) (bs_observers subj))"

definition bs_subscribe ::
  "('s, 'a) BehaviorSubject \<Rightarrow> 's \<Rightarrow> ('s, 'a) BehaviorSubject \<times> ('s \<times> 'a) list" where
  "bs_subscribe subj ob = (subj\<lparr>bs_observers := bs_observers subj @ [ob]\<rparr>, [(ob, bs_value subj)])"

text \<open>
  \<^verbatim>\<open>MediaMonitor\<close> and \<^verbatim>\<open>MediaService\<close> hold the same three things, the registry, the source
  and the queue, and have the same \<^verbatim>\<open>_next\<close> and the same registration of the breakpoints
  in their constructors. They differ in the observable they hand out. One record stands for
  both; a subscription of the monitor is the alias given to \<^verbatim>\<open>observe\<close>, if any, with the
  observer, a subscription of the service is the observer.
\<close>

record 's Publisher =
  pub_breakpoints :: BreakPointRegistry
  source :: "('s, MediaChange) BehaviorSubject"
  asyncQueue :: ChangeQueue

type_synonym 'o MediaMonitor = "(string option \<times> 'o) Publisher"
type_synonym 'o MediaService = "'o Publisher"

text \<open>\<^verbatim>\<open>_next\<close>, the callback \<^verbatim>\<open>_notify\<close> of the queue: \<^verbatim>\<open>null\<close> is not passed on.\<close>

definition next_change :: "'s Publisher \<Rightarrow> MediaChange option \<Rightarrow> 's Publisher \<times> ('s \<times> MediaChange) list" where
  "next_change pub change =
     (case change of
        None \<Rightarrow> (pub, [])
      | Some c \<Rightarrow> (let (src, out) = bs_next (source pub) c in (pub\<lparr>source := src\<rparr>, out)))"

fun notify :: "'s Publisher \<Rightarrow> MediaChange option list \<Rightarrow> 's Publisher \<times> ('s \<times> MediaChange) list" where
  "notify pub [] = (pub, [])"
| "notify pub (c # cs) =
     (let (pub1, out1) = next_change pub c; (pub2, out2) = notify pub1 cs in (pub2, out1 @ out2))"

text \<open>The queue at work inside a publisher: \<^verbatim>\<open>onChange\<close> is the bound \<^verbatim>\<open>onMediaChange\<close> that is
  registered with \<^verbatim>\<open>MatchMedia\<close>; \<open>flush\<close> is one run of \<^verbatim>\<open>processQueue\<close>.\<close>

definition onChange :: "'s Publisher \<Rightarrow> MediaChange \<Rightarrow> 's Publisher \<times> ('s \<times> MediaChange) list" where
  "onChange pub change =
     (let (cq, outs) = onMediaChange (asyncQueue pub) change
      in notify (pub\<lparr>asyncQueue := cq\<rparr>) outs)"

definition flush :: "'s Publisher \<Rightarrow> 's Publisher \<times> ('s \<times> MediaChange) list" where
  "flush pub =
     (let (cq, outs) = processQueue (asyncQueue pub)
      in notify (pub\<lparr>asyncQueue := cq\<rparr>) outs)"

fun onChanges :: "'s Publisher \<Rightarrow> MediaChange list \<Rightarrow> 's Publisher \<times> ('s \<times> MediaChange) list" where
  "onChanges pub [] = (pub, [])"
| "onChanges pub (c # cs) =
     (let (pub1, out1) = onChange pub c; (pub2, out2) = onChanges pub1 cs in (pub2, out1 @ out2))"

text \<open>
  \<^verbatim>\<open>_registerBreakpoints\<close>: every range's query is registered with the callback \<open>cb\<close>, which
  stands for the bound \<^verbatim>\<open>onMediaChange\<close>; the calls that \<^verbatim>\<open>registerQuery\<close> makes of it run
  \<open>onChange\<close> before the next range is registered.
\<close>

fun registerBreakpoints ::
  "Window \<Rightarrow> 'cb \<Rightarrow> BreakPoint list \<Rightarrow> 's Publisher \<Rightarrow> 'cb MatchMedia \<Rightarrow>
     ('s Publisher \<times> 'cb MatchMedia) \<times> ('s \<times> MediaChange) list" where
  "registerBreakpoints win cb [] pub mm = ((pub, mm), [])"
| "registerBreakpoints win cb (bp # bps) pub mm =
     (let (mm1, calls) = registerQuery win mm (bp_mediaQuery bp) cb;
          (pub1, out1) = onChanges pub (map snd calls);
          (res, out2) = registerBreakpoints win cb bps pub1 mm1
      in (res, out1 @ out2))"

text \<open>
  The constructors. \<open>dq\<close> is the query of \<^verbatim>\<open>new MediaChange(true)\<close>, the default of the
  constructor's second parameter, which the sources at hand do not show.
\<close>

definition Publisher_new ::
  "Window \<Rightarrow> 'cb \<Rightarrow> string \<Rightarrow> BreakPointRegistry \<Rightarrow> 'cb MatchMedia \<Rightarrow> 's Publisher \<times> 'cb MatchMedia" where
  "Publisher_new win cb dq reg mm =
     fst (registerBreakpoints win cb (items reg)
            \<lparr>pub_breakpoints = reg,
             source = BehaviorSubject_new (MediaChange_new True dq),
             asyncQueue = ChangeQueue_new (items reg)\<rparr> mm)"

text \<open>
  \<^verbatim>\<open>MediaMonitor.observe(alias?)\<close>: what the observable passes on of one value of the source.
  An absent alias and the empty alias are falsy, and nothing is filtered then.
\<close>

definition observe :: "BreakPointRegistry \<Rightarrow> string option \<Rightarrow> MediaChange \<Rightarrow> MediaChange list" where
  "observe reg a change =
     (let bp = (case a of None \<Rightarrow> None | Some s \<Rightarrow> js_or (findByAlias reg s) (findByQuery reg s));
          mq = (case bp of Some b \<Rightarrow> Some (bp_mediaQuery b) | None \<Rightarrow> a)
      in map (\<lambda>c. mergeAlias c bp)
           (filter (\<lambda>c. case a of
                           None \<Rightarrow> True
                         | Some s \<Rightarrow> if s \<noteq> '''' then Some (mediaQuery c) = mq else True)
                   [change]))"

definition MediaMonitor_deliver ::
  "'o MediaMonitor \<Rightarrow> ((string option \<times> 'o) \<times> MediaChange) list \<Rightarrow> ('o \<times> MediaChange) list" where
  "MediaMonitor_deliver mon out =
     concat (map (\<lambda>((a, ob), v). map (Pair ob) (observe (pub_breakpoints mon) a v)) out)"

definition MediaMonitor_subscribe ::
  "'o MediaMonitor \<Rightarrow> string option \<Rightarrow> 'o \<Rightarrow> 'o MediaMonitor \<times> ('o \<times> MediaChange) list" where
  "MediaMonitor_subscribe mon a ob =
     (let (src, out) = bs_subscribe (source mon) (a, ob)
      in (mon\<lparr>source := src\<rparr>, MediaMonitor_deliver mon out))"

text \<open>\<^verbatim>\<open>MediaService._buildObservable\<close>: the filter on \<^verbatim>\<open>matches\<close> and the alias injection.\<close>

definition addAliasInfo :: "BreakPointRegistry \<Rightarrow> MediaChange \<Rightarrow> MediaChange" where
  "addAliasInfo reg change = mergeAlias change (findByQuery reg (mediaQuery change))"

definition buildObservable :: "BreakPointRegistry \<Rightarrow> MediaChange \<Rightarrow> MediaChange list" where
  "buildObservable reg change =
     map (addAliasInfo reg) (filter (\<lambda>c. matches c = True) [change])"

definition MediaService_deliver ::
  "'o MediaService \<Rightarrow> ('o \<times> MediaChange) list \<Rightarrow> ('o \<times> MediaChange) list" where
  "MediaService_deliver ms out =
     concat (map (\<lambda>(ob, v). map (Pair ob) (buildObservable (pub_breakpoints ms) v)) out)"

definition MediaService_subscribe ::
  "'o MediaService \<Rightarrow> 'o \<Rightarrow> 'o MediaService \<times> ('o \<times> MediaChange) list" where
  "MediaService_subscribe ms ob =
     (let (src, out) = bs_subscribe (source ms) ob
      in (ms\<lparr>source := src\<rparr>, MediaService_deliver ms out))"

text \<open>\<^verbatim>\<open>MediaService.isActive\<close> with \<^verbatim>\<open>_toMediaQuery\<close>.\<close>

definition MediaService_isActive :: "BreakPointRegistry \<Rightarrow> 'cb MatchMedia \<Rightarrow> string \<Rightarrow> bool" where
  "MediaService_isActive reg mm a =
     (let bp = js_or (findByAlias reg a) (findByQuery reg a);
          query = (case bp of Some b \<Rightarrow> bp_mediaQuery b | None \<Rightarrow> a)
      in MatchMedia_isActive mm query)"

text \<open>What a source with the subscriptions \<open>obs\<close> hands out when the values \<open>vs\<close> are passed to
  it one after the other.\<close>

definition broadcast :: "'s list \<Rightarrow> 'a list \<Rightarrow> ('s \<times> 'a) list" where
  "broadcast obs vs = concat (map (\<lambda>v. map (\<lambda>ob. (ob, v)) obs) vs)"

text \<open>
  A query's evaluation changes in a system of a publisher and the \<^verbatim>\<open>MatchMedia\<close> in which it
  registered its callback \<open>cb\<close>: the list fires, and every call of \<open>cb\<close> runs \<open>onChange\<close>.
\<close>

definition mediaChanges ::
  "'cb \<Rightarrow> 's Publisher \<times> 'cb MatchMedia \<Rightarrow> string \<Rightarrow> bool \<Rightarrow>
     ('s Publisher \<times> 'cb MatchMedia) \<times> ('s \<times> MediaChange) list" where
  "mediaChanges cb sys mq b =
     (let (mm1, calls) = mqlChange (snd sys) mq b;
          (pub1, out) = onChanges (fst sys) (map snd (filter (\<lambda>c. fst c = cb) calls))
      in ((pub1, mm1), out))"

text \<open>
  The ranges whose query is not empty and currently true: the ones for which the registration
  in the constructor calls the callback. A queue is idle when its buffers are empty, no flush
  is pending and it flushes in line, as a new queue does.
\<close>

definition trueRanges :: "Window \<Rightarrow> 'cb MatchMedia \<Rightarrow> BreakPoint list \<Rightarrow> BreakPoint list" where
  "trueRanges win mm bps =
     filter (\<lambda>bp. bp_mediaQuery bp \<noteq> '''' \<and> currentlyMatches win mm (bp_mediaQuery bp)) bps"

definition idle :: "ChangeQueue \<Rightarrow> bool" where
  "idle cq = (activated cq = [] \<and> deactivated cq = [] \<and> \<not> debouncing cq \<and> \<not> enableAsync cq)"

section \<open>Example data\<close>

text \<open>Ranges \<open>r1\<close>, \<open>r2\<close>, ... with the queries \<open>Q1\<close>, \<open>Q2\<close>, ..., and a queue over four of
  them with a flush pending.\<close>

definition exampleRange :: "string \<Rightarrow> BreakPoint" where
  "exampleRange n =
     \<lparr>bp_alias = ''r'' @ n, bp_mediaQuery = ''Q'' @ n, bp_suffix = ''R'' @ n,
      overlapping = False\<rparr>"

definition exampleQueue :: "MediaChange list \<Rightarrow> MediaChange list \<Rightarrow> ChangeQueue" where
  "exampleQueue ds as =
     \<lparr>enableAsync = True,
      breakpoints = [exampleRange ''1'', exampleRange ''2'', exampleRange ''3'', exampleRange ''4''],
      deactivated = ds, activated = as, debouncing = True\<rparr>"

text \<open>A monitor over the four example ranges with one subscription of \<^verbatim>\<open>observe()\<close>, by the
  observer \<open>0\<close>, and the given buffers in its queue.\<close>

definition exampleMonitor :: "MediaChange list \<Rightarrow> MediaChange list \<Rightarrow> nat MediaMonitor" where
  "exampleMonitor ds as =
     \<lparr>pub_breakpoints =
        \<lparr>items = [exampleRange ''1'', exampleRange ''2'', exampleRange ''3'', exampleRange ''4'']\<rparr>,
      source = \<lparr>bs_value = MediaChange_new True ''all'', bs_observers = [(None, 0)]\<rparr>,
      asyncQueue = exampleQueue ds as\<rparr>"

text \<open>A window in which exactly the queries of \<open>active\<close> evaluate to true, the state of
  \<^verbatim>\<open>MatchMedia\<close> after the queries \<open>qs\<close> were registered in it with the callback \<open>0\<close>, and
  overlapping ranges \<open>gt-r1\<close>, \<open>gt-r2\<close>, ... with the queries \<open>G1\<close>, \<open>G2\<close>, ...\<close>

definition exampleWindow :: "string list \<Rightarrow> Window" where
  "exampleWindow active = \<lparr>win_matches = (\<lambda>q. List.member active q), win_canListen = True\<rparr>"

definition exampleMedia :: "string list \<Rightarrow> string list \<Rightarrow> nat MatchMedia" where
  "exampleMedia active qs =
     fst (registerQueries (exampleWindow active) MatchMedia_new (map (\<lambda>q. (q, 0)) qs))"

definition exampleOverlap :: "string \<Rightarrow> BreakPoint" where
  "exampleOverlap n =
     \<lparr>bp_alias = ''gt-r'' @ n, bp_mediaQuery = ''G'' @ n, bp_suffix = ''GtR'' @ n,
      overlapping = True\<rparr>"

text \<open>A publisher over the ranges \<open>r1\<close> and \<open>r2\<close>, constructed with a new \<^verbatim>\<open>MatchMedia\<close> in a
  window in which the queries of \<open>active\<close> are true; \<open>all\<close> stands for the default query of
  \<^verbatim>\<open>new MediaChange(true)\<close>.\<close>

definition exampleSystem :: "string list \<Rightarrow> 's Publisher \<times> nat MatchMedia" where
  "exampleSystem active =
     Publisher_new (exampleWindow active) 0 ''all''
       \<lparr>items = [exampleRange ''1'', exampleRange ''2'']\<rparr> MatchMedia_new"

section \<open>Properties of the ChangeQueue\<close>

lemma js_or_None [simp]: "js_or None b = b"
  by (simp add: js_or_def)

lemma js_or_Some [simp]: "js_or (Some x) b = Some x"
  by (simp add: js_or_def)

lemma foldl_js_or_Some:
  "foldl (\<lambda>r x. js_or r (f x)) (Some y) xs = Some y"
  by (induction xs) simp_all

lemma foldl_js_or_find:
  "foldl (\<lambda>r x. js_or r (if P x then Some x else None)) None xs = find P xs"
  by (induction xs) (simp_all add: foldl_js_or_Some)

lemma findActivationFor_find:
  "findActivationFor cq bp = find (\<lambda>c. mediaQuery c = bp_mediaQuery bp) (activated cq)"
  unfolding findActivationFor_def by (rule foldl_js_or_find)

lemma find_None_list_ex: "(find P xs = None) = (\<not> list_ex P xs)"
  by (induction xs) simp_all

lemma foldl_js_or_first:
  "foldl (\<lambda>r x. js_or r (f x)) None xs =
     (case find (\<lambda>x. f x \<noteq> None) xs of None \<Rightarrow> None | Some x \<Rightarrow> f x)"
proof (induction xs)
  case Nil
  show ?case by simp
next
  case (Cons x xs)
  show ?case
  proof (cases "f x")
    case None
    with Cons show ?thesis by simp
  next
    case (Some y)
    then show ?thesis by (simp add: foldl_js_or_Some)
  qed
qed

lemma findFirstActivation_resolved:
  "findFirstActivation cq = resolvedActivation (breakpoints cq) (activated cq)"
proof -
  have "(\<lambda>bp. findActivationFor cq bp \<noteq> None) =
        (\<lambda>bp. list_ex (\<lambda>c. mediaQuery c = bp_mediaQuery bp) (activated cq))"
    by (simp add: findActivationFor_find find_None_list_ex)
  then show ?thesis
    unfolding findFirstActivation_def resolvedActivation_def firstRangeWithActivation_def
    by (simp add: foldl_js_or_first findActivationFor_find)
qed

lemma emitted_simps [simp]:
  "emitted [] = []"
  "emitted (None # outs) = emitted outs"
  "emitted (Some c # outs) = c # emitted outs"
  by (simp_all add: emitted_def)

lemma emitted_append [simp]: "emitted (xs @ ys) = emitted xs @ emitted ys"
  by (simp add: emitted_def)

lemma emitted_map_Some [simp]: "emitted (map Some xs) = xs"
  by (induction xs) simp_all

lemma processQueue_out:
  "snd (processQueue cq) = map Some (deactivated cq) @ [findFirstActivation cq]"
  by (simp add: processQueue_def announceDeactivations_def announceActivation_def
      findFirstActivation_def findActivationFor_def)

lemma processQueue_state:
  "fst (processQueue cq) = cq\<lparr>deactivated := [], activated := [], debouncing := False\<rparr>"
  by (simp add: processQueue_def announceDeactivations_def announceActivation_def)

lemma emitted_flush:
  "emitted (snd (processQueue cq)) =
     deactivated cq @ (case findFirstActivation cq of None \<Rightarrow> [] | Some c \<Rightarrow> [c])"
  by (simp add: processQueue_out split: option.splits)

subsection \<open>The buffers stay sorted\<close>

lemma sortedBuffers_new: "sortedBuffers (ChangeQueue_new bps)"
  by (simp add: sortedBuffers_def ChangeQueue_new_def)

lemma sortedBuffers_queueChanges:
  "sortedBuffers cq \<Longrightarrow> sortedBuffers (queueChanges cq change)"
  by (simp add: sortedBuffers_def queueChanges_def)

lemma sortedBuffers_debouncing [simp]:
  "sortedBuffers (cq\<lparr>debouncing := b\<rparr>) = sortedBuffers cq"
  by (simp add: sortedBuffers_def)

lemma sortedBuffers_enableAsync [simp]:
  "sortedBuffers (cq\<lparr>enableAsync := b\<rparr>) = sortedBuffers cq"
  by (simp add: sortedBuffers_def)

lemma sortedBuffers_processQueue: "sortedBuffers (fst (processQueue cq))"
  by (simp add: processQueue_state sortedBuffers_def)

lemma sortedBuffers_onMediaChange:
  "sortedBuffers cq \<Longrightarrow> sortedBuffers (fst (onMediaChange cq change))"
  by (simp add: onMediaChange_def Let_def sortedBuffers_queueChanges sortedBuffers_processQueue)

lemma sortedBuffers_queueStep:
  "sortedBuffers cq \<Longrightarrow> sortedBuffers (fst (queueStep cq i))"
  by (cases i) (simp_all add: sortedBuffers_onMediaChange timerFires_def sortedBuffers_processQueue)

lemma sortedBuffers_queueRun:
  "sortedBuffers cq \<Longrightarrow> sortedBuffers (fst (queueRun cq is))"
proof (induction "is" arbitrary: cq)
  case Nil
  then show ?case by simp
next
  case (Cons i "is")
  from Cons.prems have "sortedBuffers (fst (queueStep cq i))" by (rule sortedBuffers_queueStep)
  then have "sortedBuffers (fst (queueRun (fst (queueStep cq i)) is))" by (rule Cons.IH)
  then show ?case by (simp add: split_beta Let_def)
qed

text \<open>Every state a new queue can get into has sorted buffers, and so has the state that
  \<^verbatim>\<open>onMediaChange\<close> flushes in line.\<close>

lemma sortedBuffers_reachable:
  "sortedBuffers (fst (queueRun (ChangeQueue_new bps) is))"
  by (rule sortedBuffers_queueRun [OF sortedBuffers_new])

lemma sortedBuffers_inline_flush:
  "sortedBuffers cq \<Longrightarrow> sortedBuffers ((queueChanges cq change)\<lparr>debouncing := True\<rparr>)"
  by (simp add: sortedBuffers_queueChanges)

lemma sortedBuffers_filter:
  "sortedBuffers cq \<Longrightarrow> filter matches (deactivated cq) = []"
  by (simp add: sortedBuffers_def list_all_iff)

subsection \<open>Priority resolution\<close>

lemma find_matches_query:
  "map_option mediaQuery (find (\<lambda>c. mediaQuery c = q) act) =
     (if list_ex (\<lambda>c. mediaQuery c = q) act then Some q else None)"
  by (induction act) auto

lemma firstRangeWithActivation_set:
  "set act' = set act \<Longrightarrow> firstRangeWithActivation bps act' = firstRangeWithActivation bps act"
  by (simp add: firstRangeWithActivation_def list_ex_iff)

lemma resolvedActivation_query:
  "map_option mediaQuery (resolvedActivation bps act) =
     map_option bp_mediaQuery (firstRangeWithActivation bps act)"
proof (cases "firstRangeWithActivation bps act")
  case None
  then show ?thesis by (simp add: resolvedActivation_def)
next
  case (Some bp)
  then have "list_ex (\<lambda>c. mediaQuery c = bp_mediaQuery bp) act"
    unfolding firstRangeWithActivation_def by (auto simp: find_Some_iff)
  with Some show ?thesis
    by (simp add: resolvedActivation_def find_matches_query)
qed

lemma resolvedActivation_in_buffer:
  "resolvedActivation bps act = Some c \<Longrightarrow> c \<in> set act"
  by (auto simp: resolvedActivation_def find_Some_iff split: option.splits)

lemma flush_activations:
  assumes "sortedBuffers cq"
  shows "filter matches (emitted (snd (processQueue cq))) =
        (case resolvedActivation (breakpoints cq) (activated cq) of None \<Rightarrow> [] | Some c \<Rightarrow> [c])"
proof (cases "resolvedActivation (breakpoints cq) (activated cq)")
  case None
  with assms show ?thesis
    by (simp add: emitted_flush sortedBuffers_filter findFirstActivation_resolved)
next
  case (Some c)
  then have "c \<in> set (activated cq)" by (rule resolvedActivation_in_buffer)
  with assms have "matches c" by (simp add: sortedBuffers_def list_all_iff)
  with assms Some show ?thesis
    by (simp add: emitted_flush sortedBuffers_filter findFirstActivation_resolved)
qed

lemma flush_activation_query:
  assumes "sortedBuffers cq"
  shows "map mediaQuery (filter matches (emitted (snd (processQueue cq)))) =
        (case firstRangeWithActivation (breakpoints cq) (activated cq) of
              None \<Rightarrow> [] | Some bp \<Rightarrow> [bp_mediaQuery bp])"
proof (cases "firstRangeWithActivation (breakpoints cq) (activated cq)")
  case None
  then show ?thesis by (simp add: flush_activations [OF assms] resolvedActivation_def)
next
  case (Some bp)
  with resolvedActivation_query [of "breakpoints cq" "activated cq"]
  show ?thesis by (auto simp: flush_activations [OF assms])
qed

text \<open>
  Claim C1. A flush emits at most one activation event. The one it emits is the first queued
  activation whose query is the \<^verbatim>\<open>mediaQuery\<close> of the first breakpoint, in registry order,
  that has a queued activation of its query; when no breakpoint has one, none is emitted. The
  range chosen does not depend on the order of arrival: any queue over the same breakpoints
  whose activated buffer holds the same events, in whatever order, announces an activation of
  the same query.
\<close>

theorem flush_announces_first_registered_activation:
  assumes "sortedBuffers cq"
  shows "length (filter matches (emitted (snd (processQueue cq)))) \<le> 1 \<and>
         filter matches (emitted (snd (processQueue cq))) =
           (case firstRangeWithActivation (breakpoints cq) (activated cq) of
              None \<Rightarrow> []
            | Some bp \<Rightarrow>
                (case find (\<lambda>c. mediaQuery c = bp_mediaQuery bp) (activated cq) of
                   None \<Rightarrow> [] | Some c \<Rightarrow> [c])) \<and>
         map mediaQuery (filter matches (emitted (snd (processQueue cq)))) =
           (case firstRangeWithActivation (breakpoints cq) (activated cq) of
              None \<Rightarrow> [] | Some bp \<Rightarrow> [bp_mediaQuery bp]) \<and>
         (\<forall>cq'. sortedBuffers cq' \<and> breakpoints cq' = breakpoints cq \<and>
                set (activated cq') = set (activated cq) \<longrightarrow>
                map mediaQuery (filter matches (emitted (snd (processQueue cq')))) =
                map mediaQuery (filter matches (emitted (snd (processQueue cq)))))"
proof -
  have one: "length (filter matches (emitted (snd (processQueue cq)))) \<le> 1"
    by (simp add: flush_activations [OF assms] split: option.splits)
  have two: "filter matches (emitted (snd (processQueue cq))) =
           (case firstRangeWithActivation (breakpoints cq) (activated cq) of
              None \<Rightarrow> []
            | Some bp \<Rightarrow>
                (case find (\<lambda>c. mediaQuery c = bp_mediaQuery bp) (activated cq) of
                   None \<Rightarrow> [] | Some c \<Rightarrow> [c]))"
    by (simp add: flush_activations [OF assms] resolvedActivation_def split: option.splits)
  have four: "map mediaQuery (filter matches (emitted (snd (processQueue cq')))) =
                map mediaQuery (filter matches (emitted (snd (processQueue cq))))"
    if "sortedBuffers cq'" "breakpoints cq' = breakpoints cq"
       "set (activated cq') = set (activated cq)" for cq'
    using that firstRangeWithActivation_set [of "activated cq'" "activated cq" "breakpoints cq"]
    by (simp add: flush_activation_query [OF assms] flush_activation_query [OF that(1)])
  from one two flush_activation_query [OF assms] four show ?thesis by blast
qed

theorem flush_announces_first_registered_activation_witness:
  "sortedBuffers (exampleQueue [] [MediaChange_new True ''Q4'', MediaChange_new True ''Q2'']) \<and>
   filter matches (emitted (snd (processQueue
      (exampleQueue [] [MediaChange_new True ''Q4'', MediaChange_new True ''Q2''])))) =
     [MediaChange_new True ''Q2''] \<and>
   map mediaQuery (filter matches (emitted (snd (processQueue
      (exampleQueue [] [MediaChange_new True ''Q2'', MediaChange_new True ''Q4''])))))
     = [''Q2'']"
proof -
  let ?cq = "exampleQueue [] [MediaChange_new True ''Q4'', MediaChange_new True ''Q2'']"
  let ?cq' = "exampleQueue [] [MediaChange_new True ''Q2'', MediaChange_new True ''Q4'']"
  have s: "sortedBuffers ?cq" and s': "sortedBuffers ?cq'"
    by (simp_all add: sortedBuffers_def exampleQueue_def MediaChange_new_def)
  have e: "breakpoints ?cq' = breakpoints ?cq \<and> set (activated ?cq') = set (activated ?cq)"
    by (auto simp add: exampleQueue_def)
  have f: "firstRangeWithActivation (breakpoints ?cq) (activated ?cq) = Some (exampleRange ''2'')"
    by (simp add: firstRangeWithActivation_def exampleQueue_def exampleRange_def MediaChange_new_def)
  have g: "find (\<lambda>c. mediaQuery c = bp_mediaQuery (exampleRange ''2'')) (activated ?cq) =
      Some (MediaChange_new True ''Q2'')"
    by (simp add: exampleQueue_def exampleRange_def MediaChange_new_def)
  note c1 = flush_announces_first_registered_activation [OF s]
  from c1 f g have sel: "filter matches (emitted (snd (processQueue ?cq))) =
      [MediaChange_new True ''Q2'']"
    by simp
  from c1 s' e have "map mediaQuery (filter matches (emitted (snd (processQueue ?cq')))) =
      map mediaQuery (filter matches (emitted (snd (processQueue ?cq))))"
    by blast
  with sel have "map mediaQuery (filter matches (emitted (snd (processQueue ?cq')))) = [''Q2'']"
    by (simp add: MediaChange_new_def)
  with s sel show ?thesis by simp
qed

subsection \<open>Deactivations first\<close>

lemma queueChanges_deactivated:
  "deactivated (queueChanges cq change) = deactivated cq @ (if matches change then [] else [change])"
  by (simp add: queueChanges_def)

lemma queueChanges_activated:
  "activated (queueChanges cq change) = activated cq @ (if matches change then [change] else [])"
  by (simp add: queueChanges_def)

lemma findFirstActivation_deactivated [simp]:
  "findFirstActivation (cq\<lparr>deactivated := ds\<rparr>) = findFirstActivation cq"
  by (simp add: findFirstActivation_def findActivationFor_def)

lemma announced_activation_matches:
  assumes "sortedBuffers cq"
  shows "list_all matches (emitted (snd (announceActivation cq)))"
proof (cases "resolvedActivation (breakpoints cq) (activated cq)")
  case None
  then show ?thesis by (simp add: announceActivation_def findFirstActivation_resolved)
next
  case (Some c)
  then have "c \<in> set (activated cq)" by (rule resolvedActivation_in_buffer)
  with assms have "matches c" by (simp add: sortedBuffers_def list_all_iff)
  with Some show ?thesis by (simp add: announceActivation_def findFirstActivation_resolved)
qed

text \<open>
  Claim C2, as amended. A flush emits every buffered deactivation, in the order of the buffer
  (the order received, see \<open>queueChanges_deactivated\<close>), and after them what the activation
  step announces, which are activations only. The deactivated buffer has no part in the choice
  of the activation: nothing is cancelled. An activation is emitted after the deactivations
  when the priority resolution selects it; a queued activation that is not selected is not
  emitted, whether or not a deactivation of its query is queued.
\<close>

theorem flush_deactivations_then_selected_activation:
  assumes "sortedBuffers cq"
  shows "emitted (snd (processQueue cq)) =
           deactivated cq @ emitted (snd (announceActivation cq)) \<and>
         list_all (\<lambda>c. \<not> matches c) (deactivated cq) \<and>
         list_all matches (emitted (snd (announceActivation cq))) \<and>
         (\<forall>ds. snd (announceActivation (cq\<lparr>deactivated := ds\<rparr>)) = snd (announceActivation cq)) \<and>
         (\<forall>a. resolvedActivation (breakpoints cq) (activated cq) = Some a \<longrightarrow>
              emitted (snd (processQueue cq)) = deactivated cq @ [a])"
proof -
  have one: "emitted (snd (processQueue cq)) =
      deactivated cq @ emitted (snd (announceActivation cq))"
    by (simp add: emitted_flush announceActivation_def split: option.splits)
  from assms have two: "list_all (\<lambda>c. \<not> matches c) (deactivated cq)"
    by (simp add: sortedBuffers_def)
  have four: "snd (announceActivation (cq\<lparr>deactivated := ds\<rparr>)) = snd (announceActivation cq)"
    for ds
    by (simp add: announceActivation_def)
  have five: "emitted (snd (processQueue cq)) = deactivated cq @ [a]"
    if "resolvedActivation (breakpoints cq) (activated cq) = Some a" for a
    using that by (simp add: emitted_flush findFirstActivation_resolved)
  from one two announced_activation_matches [OF assms] four five show ?thesis by blast
qed

theorem flush_deactivations_then_selected_activation_witness:
  "sortedBuffers (exampleQueue [MediaChange_new False ''Q2''] [MediaChange_new True ''Q2'']) \<and>
   emitted (snd (processQueue
     (exampleQueue [MediaChange_new False ''Q2''] [MediaChange_new True ''Q2'']))) =
     [MediaChange_new False ''Q2'', MediaChange_new True ''Q2'']"
proof -
  let ?cq = "exampleQueue [MediaChange_new False ''Q2''] [MediaChange_new True ''Q2'']"
  have s: "sortedBuffers ?cq"
    by (simp add: sortedBuffers_def exampleQueue_def MediaChange_new_def)
  have r: "resolvedActivation (breakpoints ?cq) (activated ?cq) = Some (MediaChange_new True ''Q2'')"
    by (simp add: resolvedActivation_def firstRangeWithActivation_def exampleQueue_def
        exampleRange_def MediaChange_new_def)
  from flush_deactivations_then_selected_activation [OF s] r
  have "emitted (snd (processQueue ?cq)) = deactivated ?cq @ [MediaChange_new True ''Q2'']"
    by blast
  with s show ?thesis by (simp add: exampleQueue_def)
qed

text \<open>
  Claim C2 as stated fails: with a deactivation and an activation of \<open>Q2\<close> and an activation
  of \<open>Q1\<close> buffered for one flush, the flush emits the deactivation of \<open>Q2\<close> and the activation
  of \<open>Q1\<close>; the activation of \<open>Q2\<close> is not emitted.
\<close>

theorem same_query_activation_not_emitted:
  "fst (queueRun
         (ChangeQueue_new
            [exampleRange ''1'', exampleRange ''2'', exampleRange ''3'', exampleRange ''4''])
         [SetAsync True, RawChange (MediaChange_new False ''Q2''),
          RawChange (MediaChange_new True ''Q2''), RawChange (MediaChange_new True ''Q1'')]) =
     exampleQueue [MediaChange_new False ''Q2'']
       [MediaChange_new True ''Q2'', MediaChange_new True ''Q1''] \<and>
   emitted (snd (processQueue
     (exampleQueue [MediaChange_new False ''Q2'']
        [MediaChange_new True ''Q2'', MediaChange_new True ''Q1'']))) =
     [MediaChange_new False ''Q2'', MediaChange_new True ''Q1''] \<and>
   MediaChange_new True ''Q2'' \<notin> set (emitted (snd (processQueue
     (exampleQueue [MediaChange_new False ''Q2'']
        [MediaChange_new True ''Q2'', MediaChange_new True ''Q1'']))))"
proof -
  let ?cq = "exampleQueue [MediaChange_new False ''Q2'']
       [MediaChange_new True ''Q2'', MediaChange_new True ''Q1'']"
  have run: "fst (queueRun
         (ChangeQueue_new
            [exampleRange ''1'', exampleRange ''2'', exampleRange ''3'', exampleRange ''4''])
         [SetAsync True, RawChange (MediaChange_new False ''Q2''),
          RawChange (MediaChange_new True ''Q2''), RawChange (MediaChange_new True ''Q1'')]) = ?cq"
    by (simp add: ChangeQueue_new_def exampleQueue_def onMediaChange_def queueChanges_def
        MediaChange_new_def)
  have out: "emitted (snd (processQueue ?cq)) =
      [MediaChange_new False ''Q2'', MediaChange_new True ''Q1'']"
    by (simp add: emitted_flush findFirstActivation_def findActivationFor_def exampleQueue_def
        exampleRange_def MediaChange_new_def)
  have "MediaChange_new True ''Q2'' \<notin> set (emitted (snd (processQueue ?cq)))"
    by (simp add: out) (simp add: MediaChange_new_def)
  with run out show ?thesis by simp
qed

subsection \<open>No activation, no notification\<close>

lemma next_change_None [simp]: "next_change pub None = (pub, [])"
  by (simp add: next_change_def)

lemma next_change_Some [simp]:
  "next_change pub (Some c) =
     (pub\<lparr>source := (source pub)\<lparr>bs_value := c\<rparr>\<rparr>, map (\<lambda>ob. (ob, c)) (bs_observers (source pub)))"
  by (simp add: next_change_def bs_next_def)

lemma notify_observers:
  "bs_observers (source (fst (notify pub outs))) = bs_observers (source pub)"
proof (induction outs arbitrary: pub)
  case Nil
  show ?case by simp
next
  case (Cons c cs)
  show ?case by (cases c) (simp_all add: split_beta Cons.IH)
qed

lemma notify_out:
  "snd (notify pub outs) = broadcast (bs_observers (source pub)) (emitted outs)"
proof (induction outs arbitrary: pub)
  case Nil
  show ?case by (simp add: broadcast_def)
next
  case (Cons c cs)
  show ?case by (cases c) (simp_all add: split_beta Cons.IH broadcast_def)
qed

lemma flush_out:
  "snd (flush pub) =
     broadcast (bs_observers (source pub)) (emitted (snd (processQueue (asyncQueue pub))))"
  by (simp add: flush_def split_beta notify_out)

lemma no_registered_activation:
  assumes "\<not> list_ex (\<lambda>c. list_ex (\<lambda>bp. mediaQuery c = bp_mediaQuery bp) (breakpoints cq))
               (activated cq)"
  shows "findFirstActivation cq = None"
proof -
  from assms have "firstRangeWithActivation (breakpoints cq) (activated cq) = None"
    by (auto simp: firstRangeWithActivation_def find_None_iff list_ex_iff)
  then show ?thesis by (simp add: findFirstActivation_resolved resolvedActivation_def)
qed

lemma observe_matches: "c' \<in> set (observe reg a c) \<Longrightarrow> matches c' = matches c"
  by (auto simp: observe_def mergeAlias_def Let_def split: option.splits if_splits)

lemma MediaMonitor_deliver_matches:
  "(ob, c') \<in> set (MediaMonitor_deliver mon out) \<Longrightarrow>
     \<exists>s c. (s, c) \<in> set out \<and> matches c' = matches c"
  by (auto simp: MediaMonitor_deliver_def dest: observe_matches)

lemma broadcast_set: "(s, c) \<in> set (broadcast obs vs) \<Longrightarrow> c \<in> set vs"
  by (auto simp: broadcast_def)

text \<open>
  Claim C4. When no event of the activated buffer has the query of a breakpoint of the queue,
  the activation step calls \<^verbatim>\<open>_notify(null)\<close>, \<^verbatim>\<open>_next\<close> passes nothing on for it, the source
  is handed the buffered deactivations and nothing else, and no subscriber of the monitor
  receives an event with \<^verbatim>\<open>matches\<close> true.
\<close>

theorem flush_without_registered_activation:
  fixes mon :: "'o MediaMonitor"
  assumes "sortedBuffers (asyncQueue mon)"
    and "\<not> list_ex (\<lambda>c. list_ex (\<lambda>bp. mediaQuery c = bp_mediaQuery bp)
                            (breakpoints (asyncQueue mon)))
              (activated (asyncQueue mon))"
  shows "snd (announceActivation (asyncQueue mon)) = [None] \<and>
         next_change mon None = (mon, []) \<and>
         snd (flush mon) = broadcast (bs_observers (source mon)) (deactivated (asyncQueue mon)) \<and>
         list_all (\<lambda>(ob, c). \<not> matches c) (MediaMonitor_deliver mon (snd (flush mon)))"
proof -
  from assms(2) have none: "findFirstActivation (asyncQueue mon) = None"
    by (rule no_registered_activation)
  then have a: "snd (announceActivation (asyncQueue mon)) = [None]"
    by (simp add: announceActivation_def)
  from none have f: "snd (flush mon) =
      broadcast (bs_observers (source mon)) (deactivated (asyncQueue mon))"
    by (simp add: flush_out emitted_flush)
  have "\<not> matches c'" if "(ob, c') \<in> set (MediaMonitor_deliver mon (snd (flush mon)))" for ob c'
  proof -
    from that obtain s c where "(s, c) \<in> set (snd (flush mon))" and m: "matches c' = matches c"
      by (blast dest: MediaMonitor_deliver_matches)
    then have "c \<in> set (deactivated (asyncQueue mon))"
      by (auto simp: f dest: broadcast_set)
    with assms(1) m show ?thesis by (simp add: sortedBuffers_def list_all_iff)
  qed
  then have "list_all (\<lambda>(ob, c). \<not> matches c) (MediaMonitor_deliver mon (snd (flush mon)))"
    by (auto simp: list_all_iff)
  with a f show ?thesis by simp
qed

theorem flush_without_registered_activation_witness:
  "sortedBuffers (asyncQueue (exampleMonitor [MediaChange_new False ''Q1''] [MediaChange_new True ''Q9''])) \<and>
   snd (flush (exampleMonitor [MediaChange_new False ''Q1''] [MediaChange_new True ''Q9''])) =
     [((None, 0), MediaChange_new False ''Q1'')] \<and>
   MediaMonitor_deliver (exampleMonitor [MediaChange_new False ''Q1''] [MediaChange_new True ''Q9''])
     (snd (flush (exampleMonitor [MediaChange_new False ''Q1''] [MediaChange_new True ''Q9'']))) =
     [(0, MediaChange_new False ''Q1'')]"
proof -
  let ?mon = "exampleMonitor [MediaChange_new False ''Q1''] [MediaChange_new True ''Q9'']"
  have s: "sortedBuffers (asyncQueue ?mon)"
    by (simp add: sortedBuffers_def exampleMonitor_def exampleQueue_def MediaChange_new_def)
  have n: "\<not> list_ex (\<lambda>c. list_ex (\<lambda>bp. mediaQuery c = bp_mediaQuery bp)
                            (breakpoints (asyncQueue ?mon)))
              (activated (asyncQueue ?mon))"
    by (simp add: exampleMonitor_def exampleQueue_def exampleRange_def MediaChange_new_def)
  from flush_without_registered_activation [OF s n]
  have f: "snd (flush ?mon) =
      broadcast (bs_observers (source ?mon)) (deactivated (asyncQueue ?mon))"
    by blast
  then have g: "snd (flush ?mon) = [((None, 0), MediaChange_new False ''Q1'')]"
    by (simp add: broadcast_def exampleMonitor_def exampleQueue_def)
  have "MediaMonitor_deliver ?mon [((None, 0), MediaChange_new False ''Q1'')] =
      [(0, MediaChange_new False ''Q1'')]"
    by (simp add: MediaMonitor_deliver_def observe_def mergeAlias_def)
  with s g show ?thesis by simp
qed

section \<open>Properties of the getters of MediaMonitor\<close>

lemma exampleMedia_Q12:
  "exampleMedia [''Q1'', ''Q2''] [''Q1'', ''Q2''] =
     \<lparr>registry =
        [''Q1'' \<mapsto> \<lparr>mql_matches = True, media = ''Q1'', mql_listeners = [(0, ''Q1'')],
                     mql_listens = True\<rparr>,
         ''Q2'' \<mapsto> \<lparr>mql_matches = True, media = ''Q2'', mql_listeners = [(0, ''Q2'')],
                     mql_listens = True\<rparr>],
      built = [''Q1'', ''Q2'']\<rparr>"
  by (simp add: exampleMedia_def exampleWindow_def registerQuery_def MatchMedia_new_def
      buildMQL_def addListener_def Let_def)

lemma exampleMedia_G12:
  "exampleMedia [''G1'', ''G2''] [''G1'', ''G2''] =
     \<lparr>registry =
        [''G1'' \<mapsto> \<lparr>mql_matches = True, media = ''G1'', mql_listeners = [(0, ''G1'')],
                     mql_listens = True\<rparr>,
         ''G2'' \<mapsto> \<lparr>mql_matches = True, media = ''G2'', mql_listeners = [(0, ''G2'')],
                     mql_listens = True\<rparr>],
      built = [''G1'', ''G2'']\<rparr>"
  by (simp add: exampleMedia_def exampleWindow_def registerQuery_def MatchMedia_new_def
      buildMQL_def addListener_def Let_def)

subsection \<open>\<^verbatim>\<open>active\<close>\<close>

lemma foldl_found_Some:
  "foldl (\<lambda>found bp. if P bp then (if found = None \<and> Q bp then Some bp else found) else found)
         (Some y) xs = Some y"
  by (induction xs) simp_all

lemma foldl_found_find:
  "foldl (\<lambda>found bp. if P bp then (if found = None \<and> Q bp then Some bp else found) else found)
         None xs = find (\<lambda>bp. P bp \<and> Q bp) xs"
  by (induction xs) (simp_all add: foldl_found_Some)

lemma find_rev_last:
  "find P (rev xs) = (if filter P xs = [] then None else Some (last (filter P xs)))"
  by (induction xs rule: rev_induct) simp_all

lemma active_found:
  "MediaMonitor_active reg mm =
     (case find (\<lambda>bp. bp_alias bp \<noteq> '''' \<and> MatchMedia_isActive mm (bp_mediaQuery bp))
             (rev (items reg)) of
        Some bp \<Rightarrow> Inr (Some bp)
      | None \<Rightarrow>
          (case items reg of
             [] \<Rightarrow> Inl TypeError
           | first # _ \<Rightarrow>
               Inr (if MatchMedia_isActive mm (bp_mediaQuery first) then Some first else None)))"
  unfolding MediaMonitor_active_def Let_def foldl_found_find ..

text \<open>On an empty registry the getter throws.\<close>

lemma active_empty: "items reg = [] \<Longrightarrow> MediaMonitor_active reg mm = Inl TypeError"
  by (simp add: active_found)

text \<open>
  Claim C3, as amended. On a registry that is not empty, \<^verbatim>\<open>active\<close> returns the last range in
  registry order (the highest index) that has a non-empty alias and is currently true,
  whether or not the range is flagged overlapping; when there is none, it returns the first
  range of the registry if that one is currently true, and none otherwise. It returns none
  when no range is true.
\<close>

theorem active_is_last_true_range:
  assumes "items reg \<noteq> []"
  shows "MediaMonitor_active reg mm =
     Inr (let trueRanges =
                filter (\<lambda>bp. bp_alias bp \<noteq> '''' \<and> MatchMedia_isActive mm (bp_mediaQuery bp))
                       (items reg)
          in if trueRanges \<noteq> [] then Some (last trueRanges)
             else if MatchMedia_isActive mm (bp_mediaQuery (hd (items reg)))
                  then Some (hd (items reg)) else None) \<and>
     ((\<forall>bp \<in> set (items reg). \<not> MatchMedia_isActive mm (bp_mediaQuery bp)) \<longrightarrow>
        MediaMonitor_active reg mm = Inr None)"
proof -
  from assms obtain first rest where it: "items reg = first # rest"
    by (cases "items reg") auto
  have one: "MediaMonitor_active reg mm =
     Inr (let trueRanges =
                filter (\<lambda>bp. bp_alias bp \<noteq> '''' \<and> MatchMedia_isActive mm (bp_mediaQuery bp))
                       (items reg)
          in if trueRanges \<noteq> [] then Some (last trueRanges)
             else if MatchMedia_isActive mm (bp_mediaQuery (hd (items reg)))
                  then Some (hd (items reg)) else None)"
    unfolding active_found find_rev_last Let_def by (simp add: it)
  have two: "MediaMonitor_active reg mm = Inr None"
    if "\<forall>bp \<in> set (items reg). \<not> MatchMedia_isActive mm (bp_mediaQuery bp)"
  proof -
    from that have "filter (\<lambda>bp. bp_alias bp \<noteq> '''' \<and> MatchMedia_isActive mm (bp_mediaQuery bp))
                       (items reg) = []"
      by (simp add: filter_empty_conv)
    moreover from that it have "\<not> MatchMedia_isActive mm (bp_mediaQuery (hd (items reg)))"
      by simp
    ultimately show ?thesis by (simp add: one)
  qed
  from one two show ?thesis by blast
qed

theorem active_is_last_true_range_witness:
  "items \<lparr>items = [exampleRange ''1'', exampleRange ''2'']\<rparr> \<noteq> [] \<and>
   MediaMonitor_active \<lparr>items = [exampleRange ''1'', exampleRange ''2'']\<rparr>
     (exampleMedia [''Q1'', ''Q2''] [''Q1'', ''Q2'']) = Inr (Some (exampleRange ''2''))"
proof -
  have ne: "items \<lparr>items = [exampleRange ''1'', exampleRange ''2'']\<rparr> \<noteq> []" by simp
  from active_is_last_true_range [OF ne, of "exampleMedia [''Q1'', ''Q2''] [''Q1'', ''Q2'']"] ne
  show ?thesis
    by (simp add: exampleMedia_Q12 MatchMedia_isActive_def exampleRange_def)
qed

text \<open>
  Claim C3 as stated fails: with the registry \<open>[r1, r2]\<close>, neither range overlapping and both
  queries true, the highest-priority true range is \<open>r1\<close>, and \<^verbatim>\<open>active\<close> returns \<open>r2\<close>.
\<close>

theorem active_returns_lower_priority_range:
  "MatchMedia_isActive (exampleMedia [''Q1'', ''Q2''] [''Q1'', ''Q2''])
     (bp_mediaQuery (exampleRange ''1'')) \<and>
   \<not> overlapping (exampleRange ''1'') \<and>
   MediaMonitor_active \<lparr>items = [exampleRange ''1'', exampleRange ''2'']\<rparr>
     (exampleMedia [''Q1'', ''Q2''] [''Q1'', ''Q2'']) = Inr (Some (exampleRange ''2'')) \<and>
   exampleRange ''2'' \<noteq> exampleRange ''1''"
  by (simp add: exampleMedia_Q12 MediaMonitor_active_def MatchMedia_isActive_def exampleRange_def)

subsection \<open>\<^verbatim>\<open>activeOverlaps\<close>\<close>

text \<open>
  Claim C7, as amended. \<^verbatim>\<open>activeOverlaps\<close> returns exactly the ranges flagged overlapping that
  are currently true, in reverse registry order: the lowest priority first.
\<close>

theorem activeOverlaps_reverse_registry_order:
  "MediaMonitor_activeOverlaps reg mm =
     rev (filter (\<lambda>bp. overlapping bp \<and> MatchMedia_isActive mm (bp_mediaQuery bp)) (items reg))"
  by (simp add: MediaMonitor_activeOverlaps_def overlappings_def rev_filter conj_commute)

theorem activeOverlaps_reverse_registry_order_witness:
  "MediaMonitor_activeOverlaps
     \<lparr>items = [exampleOverlap ''1'', exampleRange ''1'', exampleOverlap ''2'']\<rparr>
     (exampleMedia [''G1'', ''G2''] [''G1'', ''G2'']) = [exampleOverlap ''2'', exampleOverlap ''1'']"
  using activeOverlaps_reverse_registry_order
    [of "\<lparr>items = [exampleOverlap ''1'', exampleRange ''1'', exampleOverlap ''2'']\<rparr>"
      "exampleMedia [''G1'', ''G2''] [''G1'', ''G2'']"]
  by (simp add: exampleMedia_G12 MatchMedia_isActive_def exampleOverlap_def exampleRange_def)

text \<open>
  Claim C7 as stated fails: with the registry \<open>[gt-r1, gt-r2]\<close>, both overlapping and both
  true, \<^verbatim>\<open>activeOverlaps\<close> returns \<open>[gt-r2, gt-r1]\<close>, which is not the registry order.
\<close>

theorem activeOverlaps_not_in_registry_order:
  "MediaMonitor_activeOverlaps \<lparr>items = [exampleOverlap ''1'', exampleOverlap ''2'']\<rparr>
     (exampleMedia [''G1'', ''G2''] [''G1'', ''G2'']) = [exampleOverlap ''2'', exampleOverlap ''1''] \<and>
   [exampleOverlap ''2'', exampleOverlap ''1''] \<noteq> [exampleOverlap ''1'', exampleOverlap ''2'']"
  by (simp add: exampleMedia_G12 MediaMonitor_activeOverlaps_def overlappings_def
      MatchMedia_isActive_def exampleOverlap_def)

subsection \<open>\<^verbatim>\<open>isActive\<close>\<close>

text \<open>
  Claim C8. For a string that is neither the alias nor the query of a registered range,
  \<^verbatim>\<open>isActive\<close> of the monitor (and of the service) is \<^verbatim>\<open>isActive\<close> of \<^verbatim>\<open>MatchMedia\<close> on the
  string itself, taken as a query: the \<^verbatim>\<open>matches\<close> of its list if \<^verbatim>\<open>MatchMedia\<close> has one, and
  false otherwise. The functions have no failing branch: the lookups return a range or none,
  and \<^verbatim>\<open>Map.has\<close> and \<^verbatim>\<open>Map.get\<close> do not throw.
\<close>

theorem isActive_unknown_is_literal_query:
  assumes "\<forall>bp \<in> set (items reg). bp_alias bp \<noteq> s \<and> bp_mediaQuery bp \<noteq> s"
  shows "MediaMonitor_isActive reg mm s = MatchMedia_isActive mm s \<and>
         MediaService_isActive reg mm s = MatchMedia_isActive mm s \<and>
         MatchMedia_isActive mm s =
           (case registry mm s of Some mql \<Rightarrow> mql_matches mql | None \<Rightarrow> False) \<and>
         (registry mm s = None \<longrightarrow> \<not> MediaMonitor_isActive reg mm s)"
proof -
  from assms have "findByAlias reg s = None" and "findByQuery reg s = None"
    by (auto simp: findByAlias_def findByQuery_def find_None_iff)
  then show ?thesis
    by (simp add: MediaMonitor_isActive_def MediaService_isActive_def MatchMedia_isActive_def)
qed

theorem isActive_unknown_is_literal_query_witness:
  "\<not> MediaMonitor_isActive \<lparr>items = [exampleRange ''1'', exampleRange ''2'']\<rparr>
       (exampleMedia [''Q1'', ''Q2''] [''Q1'', ''Q2'']) ''Q9'' \<and>
   MediaMonitor_isActive \<lparr>items = [exampleRange ''1'', exampleRange ''2'']\<rparr>
       (exampleMedia [''G1'', ''G2''] [''G1'', ''G2'']) ''G2''"
proof -
  let ?reg = "\<lparr>items = [exampleRange ''1'', exampleRange ''2'']\<rparr>"
  have a: "\<forall>bp \<in> set (items ?reg). bp_alias bp \<noteq> ''Q9'' \<and> bp_mediaQuery bp \<noteq> ''Q9''"
    by (simp add: exampleRange_def)
  have b: "\<forall>bp \<in> set (items ?reg). bp_alias bp \<noteq> ''G2'' \<and> bp_mediaQuery bp \<noteq> ''G2''"
    by (simp add: exampleRange_def)
  from isActive_unknown_is_literal_query [OF a, of "exampleMedia [''Q1'', ''Q2''] [''Q1'', ''Q2'']"]
    isActive_unknown_is_literal_query [OF b, of "exampleMedia [''G1'', ''G2''] [''G1'', ''G2'']"]
  show ?thesis
    by (simp add: exampleMedia_Q12 exampleMedia_G12)
qed

section \<open>Properties of MatchMedia\<close>

text \<open>
  Claim C5, as amended. For every non-empty query string whose current evaluation is true,
  \<^verbatim>\<open>registerQuery\<close> calls the callback being registered exactly once before it returns, with
  an event that carries the query and \<^verbatim>\<open>matches\<close> true, and calls no other callback.
\<close>

theorem registerQuery_announces_true_query:
  fixes mm :: "'cb MatchMedia"
  assumes "mq \<noteq> ''''" and "currentlyMatches win mm mq"
  shows "snd (registerQuery win mm mq cb) = [(cb, MediaChange_new True mq)]"
  using assms
  by (auto simp: registerQuery_def currentlyMatches_def addListener_def onMQLEvent_def Let_def
      split: option.splits)

theorem registerQuery_announces_true_query_witness:
  "''Q1'' \<noteq> '''' \<and>
   currentlyMatches (exampleWindow [''Q1'']) (MatchMedia_new :: nat MatchMedia) ''Q1'' \<and>
   snd (registerQuery (exampleWindow [''Q1'']) (MatchMedia_new :: nat MatchMedia) ''Q1'' 7) =
     [(7, MediaChange_new True ''Q1'')] \<and>
   currentlyMatches (exampleWindow []) (exampleMedia [''Q1'', ''Q2''] [''Q1'', ''Q2'']) ''Q2'' \<and>
   snd (registerQuery (exampleWindow []) (exampleMedia [''Q1'', ''Q2''] [''Q1'', ''Q2'']) ''Q2'' 7) =
     [(7, MediaChange_new True ''Q2'')]"
proof -
  have a: "''Q1'' \<noteq> ''''" and a': "''Q2'' \<noteq> ''''" by simp_all
  have b: "currentlyMatches (exampleWindow [''Q1'']) (MatchMedia_new :: nat MatchMedia) ''Q1''"
    by (simp add: currentlyMatches_def MatchMedia_new_def buildMQL_def exampleWindow_def)
  have b': "currentlyMatches (exampleWindow []) (exampleMedia [''Q1'', ''Q2''] [''Q1'', ''Q2'']) ''Q2''"
    by (simp add: currentlyMatches_def exampleMedia_Q12)
  from registerQuery_announces_true_query [OF a b, of 7]
    registerQuery_announces_true_query [OF a' b', of 7] a b b'
  show ?thesis by simp
qed

text \<open>
  Claim C5 as stated fails for the empty query string: \<^verbatim>\<open>if (mediaQuery)\<close> skips it, though its
  evaluation is true, in a window that evaluates the empty query to true and also by the stub
  of \<^verbatim>\<open>_buildMQL\<close>, whose \<^verbatim>\<open>matches\<close> is true for the empty query. Nothing is registered and
  no callback is called.
\<close>

theorem registerQuery_skips_empty_query:
  "currentlyMatches (exampleWindow ['''']) (MatchMedia_new :: nat MatchMedia) '''' \<and>
   registerQuery (exampleWindow ['''']) (MatchMedia_new :: nat MatchMedia) '''' 7 =
     (MatchMedia_new, []) \<and>
   currentlyMatches \<lparr>win_matches = win_matches (exampleWindow []), win_canListen = False\<rparr>
     (MatchMedia_new :: nat MatchMedia) '''' \<and>
   registerQuery \<lparr>win_matches = win_matches (exampleWindow []), win_canListen = False\<rparr>
     (MatchMedia_new :: nat MatchMedia) '''' 7 = (MatchMedia_new, [])"
  by (simp add: currentlyMatches_def MatchMedia_new_def buildMQL_def exampleWindow_def
      registerQuery_def)

subsection \<open>One list per query\<close>

lemma registerQueries_append:
  "fst (registerQueries win mm (xs @ ys)) =
     fst (registerQueries win (fst (registerQueries win mm xs)) ys)"
proof (induction xs arbitrary: mm)
  case Nil
  show ?case by simp
next
  case (Cons x xs)
  obtain q cb where x: "x = (q, cb)" by (cases x)
  show ?case by (simp add: x split_beta Cons.IH)
qed

lemma registerQueries_snoc:
  "fst (registerQueries win mm (xs @ [(q, cb)])) =
     fst (registerQuery win (fst (registerQueries win mm xs)) q cb)"
  by (simp add: registerQueries_append split_beta)

lemma registerQuery_empty: "registerQuery win mm '''' cb = (mm, [])"
  by (simp add: registerQuery_def)

lemma registerQuery_known:
  "mq \<noteq> '''' \<Longrightarrow> registry mm mq = Some m \<Longrightarrow>
     fst (registerQuery win mm mq cb) = mm\<lparr>registry := (registry mm)(mq \<mapsto> addListener m (cb, mq))\<rparr>"
  by (simp add: registerQuery_def Let_def)

lemma registerQuery_fresh:
  "mq \<noteq> '''' \<Longrightarrow> registry mm mq = None \<Longrightarrow>
     fst (registerQuery win mm mq cb) =
       mm\<lparr>registry := (registry mm)(mq \<mapsto> addListener (buildMQL win mq) (cb, mq)),
          built := built mm @ [mq]\<rparr>"
  by (simp add: registerQuery_def Let_def)

lemma callbacksFor_snoc:
  "callbacksFor (regs @ [(q, cb)]) q' = callbacksFor regs q' @ (if q = q' then [cb] else [])"
  by (simp add: callbacksFor_def)

lemma listAfter_snoc_other:
  "q \<noteq> q' \<Longrightarrow> listAfter win (regs @ [(q, cb)]) q' = listAfter win regs q'"
  by (simp add: listAfter_def callbacksFor_snoc)

lemma listAfter_snoc_same:
  "listAfter win (regs @ [(q, cb)]) q = addListener (listAfter win regs q) (cb, q)"
  by (simp add: listAfter_def callbacksFor_snoc addListener_def)

lemma listAfter_first:
  "q \<notin> fst ` set regs \<Longrightarrow> listAfter win regs q = buildMQL win q"
proof -
  assume "q \<notin> fst ` set regs"
  then have "filter (\<lambda>r. fst r = q) regs = []"
    by (auto simp: filter_empty_conv)
  then show ?thesis by (simp add: listAfter_def callbacksFor_def buildMQL_def)
qed

lemma registerQueries_state:
  fixes regs :: "(string \<times> 'cb) list"
  shows "distinct (built (fst (registerQueries win MatchMedia_new regs))) \<and>
         set (built (fst (registerQueries win MatchMedia_new regs))) = fst ` set regs - {''''} \<and>
         registry (fst (registerQueries win MatchMedia_new regs)) =
           (\<lambda>q. if q \<in> set (built (fst (registerQueries win MatchMedia_new regs)))
                then Some (listAfter win regs q) else None)"
proof (induction regs rule: rev_induct)
  case Nil
  show ?case by (simp add: MatchMedia_new_def)
next
  case (snoc x xs)
  obtain q cb where x: "x = (q, cb)" by (cases x)
  let ?mm = "fst (registerQueries win (MatchMedia_new :: 'cb MatchMedia) xs)"
  let ?mm' = "fst (registerQueries win (MatchMedia_new :: 'cb MatchMedia) (xs @ [(q, cb)]))"
  from snoc have d: "distinct (built ?mm)"
    and s: "set (built ?mm) = fst ` set xs - {''''}"
    and r: "registry ?mm = (\<lambda>q. if q \<in> set (built ?mm) then Some (listAfter win xs q) else None)"
    by simp_all
  have "distinct (built ?mm') \<and> set (built ?mm') = fst ` set (xs @ [(q, cb)]) - {''''} \<and>
      registry ?mm' =
        (\<lambda>q'. if q' \<in> set (built ?mm') then Some (listAfter win (xs @ [(q, cb)]) q') else None)"
  proof (cases "q = ''''")
    case True
    have st: "?mm' = ?mm"
      by (simp add: True registerQueries_snoc registerQuery_empty)
    have "\<And>q'. q' \<in> set (built ?mm) \<Longrightarrow> listAfter win (xs @ [(q, cb)]) q' = listAfter win xs q'"
      using s True by (auto intro: listAfter_snoc_other)
    then have "(\<lambda>q'. if q' \<in> set (built ?mm) then Some (listAfter win (xs @ [(q, cb)]) q') else None) =
        (\<lambda>q'. if q' \<in> set (built ?mm) then Some (listAfter win xs q') else None)"
      by auto
    moreover from s True have "set (built ?mm) = fst ` set (xs @ [(q, cb)]) - {''''}"
      by auto
    ultimately show ?thesis using d r unfolding st by simp
  next
    case False
    show ?thesis
    proof (cases "q \<in> set (built ?mm)")
      case True
      with r have known: "registry ?mm q = Some (listAfter win xs q)" by simp
      have st: "?mm' =
          ?mm\<lparr>registry := (registry ?mm)(q \<mapsto> addListener (listAfter win xs q) (cb, q))\<rparr>"
        by (simp add: registerQueries_snoc registerQuery_known [OF False known])
      from True s have se: "set (built ?mm) = fst ` set (xs @ [(q, cb)]) - {''''}"
        by auto
      have "(registry ?mm)(q \<mapsto> addListener (listAfter win xs q) (cb, q)) =
          (\<lambda>q'. if q' \<in> set (built ?mm) then Some (listAfter win (xs @ [(q, cb)]) q') else None)"
        using True by (auto simp: r listAfter_snoc_same listAfter_snoc_other)
      with d se show ?thesis unfolding st by simp
    next
      case notin: False
      with r have fresh: "registry ?mm q = None" by simp
      have st: "?mm' =
          ?mm\<lparr>registry := (registry ?mm)(q \<mapsto> addListener (buildMQL win q) (cb, q)),
              built := built ?mm @ [q]\<rparr>"
        by (simp add: registerQueries_snoc registerQuery_fresh [OF False fresh])
      from notin s False have nq: "q \<notin> fst ` set xs" by auto
      from s False have se: "set (built ?mm @ [q]) = fst ` set (xs @ [(q, cb)]) - {''''}"
        by auto
      from d notin have di: "distinct (built ?mm @ [q])" by simp
      have "(registry ?mm)(q \<mapsto> addListener (buildMQL win q) (cb, q)) =
          (\<lambda>q'. if q' \<in> set (built ?mm @ [q]) then Some (listAfter win (xs @ [(q, cb)]) q') else None)"
        using notin
        by (auto simp: r listAfter_snoc_same listAfter_snoc_other listAfter_first [OF nq])
      with di se show ?thesis unfolding st by simp
    qed
  qed
  then show ?case unfolding x .
qed

lemma count_list_distinct:
  "distinct xs \<Longrightarrow> count_list xs x = (if x \<in> set xs then 1 else 0)"
  by (induction xs) auto

lemma callbacksFor_unregistered: "q \<notin> fst ` set regs \<Longrightarrow> callbacksFor regs q = []"
  by (auto simp: callbacksFor_def filter_empty_conv)

text \<open>
  Claim C6. After any sequence of \<^verbatim>\<open>registerQuery\<close> calls on a new \<^verbatim>\<open>MatchMedia\<close>, one
  \<^verbatim>\<open>MediaQueryList\<close> was built for each distinct non-empty query string registered, however
  many callbacks were registered for it, and none for any other string; the registry holds a
  list for exactly these strings; and when the list of a query fires, every callback
  registered for the query is called with the event, once per registration and in the order
  of registration. (The stub lists of a window that cannot listen never fire.)
\<close>

theorem one_list_per_query_and_fan_out:
  fixes regs :: "(string \<times> 'cb) list"
  shows "(\<forall>q. count_list (built (fst (registerQueries win MatchMedia_new regs))) q =
              (if q \<noteq> '''' \<and> q \<in> fst ` set regs then 1 else 0)) \<and>
         dom (registry (fst (registerQueries win MatchMedia_new regs))) = fst ` set regs - {''''} \<and>
         (\<forall>q b. win_canListen win \<and> q \<noteq> '''' \<longrightarrow>
            snd (mqlChange (fst (registerQueries win MatchMedia_new regs)) q b) =
              map (\<lambda>cb. (cb, MediaChange_new b q)) (callbacksFor regs q))"
proof -
  let ?mm = "fst (registerQueries win (MatchMedia_new :: 'cb MatchMedia) regs)"
  from registerQueries_state [of win regs]
  have d: "distinct (built ?mm)"
    and s: "set (built ?mm) = fst ` set regs - {''''}"
    and r: "registry ?mm = (\<lambda>q. if q \<in> set (built ?mm) then Some (listAfter win regs q) else None)"
    by simp_all
  have one: "count_list (built ?mm) q = (if q \<noteq> '''' \<and> q \<in> fst ` set regs then 1 else 0)" for q
    using s by (auto simp: count_list_distinct [OF d])
  have two: "dom (registry ?mm) = fst ` set regs - {''''}"
    unfolding r s [symmetric] by (auto simp: dom_def)
  have three: "snd (mqlChange ?mm q b) = map (\<lambda>cb. (cb, MediaChange_new b q)) (callbacksFor regs q)"
    if "win_canListen win" "q \<noteq> ''''" for q b
  proof (cases "q \<in> set (built ?mm)")
    case True
    with r have "registry ?mm q = Some (listAfter win regs q)" by simp
    with that(1) show ?thesis
      by (simp add: mqlChange_def Let_def listAfter_def onMQLEvent_def comp_def)
  next
    case False
    with r have "registry ?mm q = None" by simp
    moreover from False s that(2) have "q \<notin> fst ` set regs" by auto
    ultimately show ?thesis by (simp add: mqlChange_def callbacksFor_unregistered)
  qed
  from one two three show ?thesis by blast
qed

theorem one_list_per_query_and_fan_out_witness:
  "count_list (built (fst (registerQueries (exampleWindow [])  MatchMedia_new
      [(''Q1'', 1::nat), (''Q2'', 2), ('''', 3), (''Q1'', 4), (''Q1'', 1)]))) ''Q1'' = 1 \<and>
   snd (mqlChange (fst (registerQueries (exampleWindow []) MatchMedia_new
      [(''Q1'', 1::nat), (''Q2'', 2), ('''', 3), (''Q1'', 4), (''Q1'', 1)])) ''Q1'' True) =
     [(1, MediaChange_new True ''Q1''), (4, MediaChange_new True ''Q1''),
      (1, MediaChange_new True ''Q1'')]"
proof -
  let ?regs = "[(''Q1'', 1::nat), (''Q2'', 2), ('''', 3), (''Q1'', 4), (''Q1'', 1)]"
  have c: "win_canListen (exampleWindow []) \<and> ''Q1'' \<noteq> ''''"
    by (simp add: exampleWindow_def)
  note t = one_list_per_query_and_fan_out [of "exampleWindow []" ?regs]
  from t have "count_list (built (fst (registerQueries (exampleWindow []) MatchMedia_new ?regs))) ''Q1'' =
      (if ''Q1'' \<noteq> '''' \<and> ''Q1'' \<in> fst ` set ?regs then 1 else 0)"
    by blast
  then have one: "count_list (built (fst (registerQueries (exampleWindow []) MatchMedia_new ?regs))) ''Q1'' = 1"
    by simp
  from t c have "snd (mqlChange (fst (registerQueries (exampleWindow []) MatchMedia_new ?regs)) ''Q1'' True) =
      map (\<lambda>cb. (cb, MediaChange_new True ''Q1'')) (callbacksFor ?regs ''Q1'')"
    by blast
  then have two: "snd (mqlChange (fst (registerQueries (exampleWindow []) MatchMedia_new ?regs)) ''Q1'' True) =
     [(1, MediaChange_new True ''Q1''), (4, MediaChange_new True ''Q1''),
      (1, MediaChange_new True ''Q1'')]"
    by (simp add: callbacksFor_def)
  from one two show ?thesis by simp
qed

section \<open>Properties of the streams\<close>

lemma addAliasInfo_keeps:
  "matches (addAliasInfo reg c) = matches c \<and> mediaQuery (addAliasInfo reg c) = mediaQuery c"
  by (simp add: addAliasInfo_def mergeAlias_def split: option.splits)

lemma MediaService_deliver_append:
  "MediaService_deliver ms (xs @ ys) = MediaService_deliver ms xs @ MediaService_deliver ms ys"
  by (simp add: MediaService_deliver_def)

lemma MediaService_deliver_one:
  "MediaService_deliver ms (map (\<lambda>ob. (ob, v)) obs) =
     (if matches v then map (\<lambda>ob. (ob, addAliasInfo (pub_breakpoints ms) v)) obs else [])"
  by (induction obs) (simp_all add: MediaService_deliver_def buildObservable_def)

lemma broadcast_Cons:
  "broadcast obs (v # vs) = map (\<lambda>ob. (ob, v)) obs @ broadcast obs vs"
  by (simp add: broadcast_def)

lemma MediaService_deliver_broadcast:
  "MediaService_deliver ms (broadcast obs vs) =
     broadcast obs (map (addAliasInfo (pub_breakpoints ms)) (filter matches vs))"
proof (induction vs)
  case Nil
  show ?case by (simp add: broadcast_def MediaService_deliver_def)
next
  case (Cons v vs)
  then show ?case
    by (simp add: broadcast_Cons MediaService_deliver_append MediaService_deliver_one)
qed

lemma broadcast_to_one:
  "count_list obs ob = 1 \<Longrightarrow> map snd (filter (\<lambda>d. fst d = ob) (broadcast obs vs)) = vs"
proof (induction vs)
  case Nil
  show ?case by (simp add: broadcast_def)
next
  case (Cons v vs)
  have "map snd (filter (\<lambda>d. fst d = ob) (map (\<lambda>ob. (ob, v)) xs)) = replicate (count_list xs ob) v"
    for xs
    by (induction xs) simp_all
  with Cons show ?case by (simp add: broadcast_Cons)
qed

lemma exampleSystem_none:
  "exampleSystem [] =
    (\<lparr>pub_breakpoints = \<lparr>items = [exampleRange ''1'', exampleRange ''2'']\<rparr>,
      source = \<lparr>bs_value = MediaChange_new True ''all'', bs_observers = []\<rparr>,
      asyncQueue = ChangeQueue_new [exampleRange ''1'', exampleRange ''2'']\<rparr>,
     \<lparr>registry =
        [''Q1'' \<mapsto> \<lparr>mql_matches = False, media = ''Q1'', mql_listeners = [(0, ''Q1'')],
                     mql_listens = True\<rparr>,
         ''Q2'' \<mapsto> \<lparr>mql_matches = False, media = ''Q2'', mql_listeners = [(0, ''Q2'')],
                     mql_listens = True\<rparr>],
      built = [''Q1'', ''Q2'']\<rparr>)"
  by (simp add: exampleSystem_def Publisher_new_def exampleWindow_def exampleRange_def
      registerQuery_def MatchMedia_new_def buildMQL_def addListener_def Let_def
      BehaviorSubject_new_def)

lemma exampleSystem_Q1:
  "exampleSystem [''Q1''] =
    (\<lparr>pub_breakpoints = \<lparr>items = [exampleRange ''1'', exampleRange ''2'']\<rparr>,
      source = \<lparr>bs_value = MediaChange_new True ''Q1'', bs_observers = []\<rparr>,
      asyncQueue = ChangeQueue_new [exampleRange ''1'', exampleRange ''2'']\<rparr>,
     \<lparr>registry =
        [''Q1'' \<mapsto> \<lparr>mql_matches = True, media = ''Q1'', mql_listeners = [(0, ''Q1'')],
                     mql_listens = True\<rparr>,
         ''Q2'' \<mapsto> \<lparr>mql_matches = False, media = ''Q2'', mql_listeners = [(0, ''Q2'')],
                     mql_listens = True\<rparr>],
      built = [''Q1'', ''Q2'']\<rparr>)"
  by (simp add: exampleSystem_def Publisher_new_def exampleWindow_def exampleRange_def
      registerQuery_def MatchMedia_new_def buildMQL_def addListener_def Let_def
      BehaviorSubject_new_def onMQLEvent_def
      onChange_def onMediaChange_def queueChanges_def ChangeQueue_new_def processQueue_def
      announceDeactivations_def announceActivation_def findFirstActivation_def
      findActivationFor_def MediaChange_new_def)

lemma exampleSystem_activated:
  "fst (mediaChanges 0 (exampleSystem []) ''Q1'' True) =
    (\<lparr>pub_breakpoints = \<lparr>items = [exampleRange ''1'', exampleRange ''2'']\<rparr>,
      source = \<lparr>bs_value = MediaChange_new True ''Q1'', bs_observers = []\<rparr>,
      asyncQueue = ChangeQueue_new [exampleRange ''1'', exampleRange ''2'']\<rparr>,
     \<lparr>registry =
        [''Q1'' \<mapsto> \<lparr>mql_matches = True, media = ''Q1'', mql_listeners = [(0, ''Q1'')],
                     mql_listens = True\<rparr>,
         ''Q2'' \<mapsto> \<lparr>mql_matches = False, media = ''Q2'', mql_listeners = [(0, ''Q2'')],
                     mql_listens = True\<rparr>],
      built = [''Q1'', ''Q2'']\<rparr>)"
  by (simp add: exampleSystem_none mediaChanges_def mqlChange_def onMQLEvent_def Let_def
      onChange_def onMediaChange_def queueChanges_def ChangeQueue_new_def processQueue_def
      announceDeactivations_def announceActivation_def findFirstActivation_def
      findActivationFor_def exampleRange_def MediaChange_new_def fun_upd_twist)

lemma exampleSystem_deactivated:
  "fst (mediaChanges 0 (fst (mediaChanges 0 (exampleSystem []) ''Q1'' True)) ''Q1'' False) =
    (\<lparr>pub_breakpoints = \<lparr>items = [exampleRange ''1'', exampleRange ''2'']\<rparr>,
      source = \<lparr>bs_value = MediaChange_new False ''Q1'', bs_observers = []\<rparr>,
      asyncQueue = ChangeQueue_new [exampleRange ''1'', exampleRange ''2'']\<rparr>,
     \<lparr>registry =
        [''Q1'' \<mapsto> \<lparr>mql_matches = False, media = ''Q1'', mql_listeners = [(0, ''Q1'')],
                     mql_listens = True\<rparr>,
         ''Q2'' \<mapsto> \<lparr>mql_matches = False, media = ''Q2'', mql_listeners = [(0, ''Q2'')],
                     mql_listens = True\<rparr>],
      built = [''Q1'', ''Q2'']\<rparr>)"
  unfolding exampleSystem_activated
  by (simp add: mediaChanges_def mqlChange_def onMQLEvent_def Let_def
      onChange_def onMediaChange_def queueChanges_def ChangeQueue_new_def processQueue_def
      announceDeactivations_def announceActivation_def findFirstActivation_def
      findActivationFor_def exampleRange_def MediaChange_new_def fun_upd_twist)

text \<open>
  Claim C9. Of any sequence of change events passed to the source of the service, every
  subscriber is handed the events with \<^verbatim>\<open>matches\<close> true, in their order, each with the alias
  information of its range injected and its query and \<^verbatim>\<open>matches\<close> unchanged; no event with
  \<^verbatim>\<open>matches\<close> false is handed to anyone.
\<close>

theorem facade_delivers_activations_only:
  fixes ms :: "'o MediaService"
  shows "MediaService_deliver ms (snd (notify ms (map Some evs))) =
           broadcast (bs_observers (source ms))
             (map (addAliasInfo (pub_breakpoints ms)) (filter matches evs)) \<and>
         (count_list (bs_observers (source ms)) ob = 1 \<longrightarrow>
            map snd (filter (\<lambda>d. fst d = ob)
                       (MediaService_deliver ms (snd (notify ms (map Some evs))))) =
              map (addAliasInfo (pub_breakpoints ms)) (filter matches evs)) \<and>
         map (\<lambda>c. (matches c, mediaQuery c))
             (map (addAliasInfo (pub_breakpoints ms)) (filter matches evs)) =
           map (\<lambda>c. (matches c, mediaQuery c)) (filter matches evs) \<and>
         list_all (\<lambda>d. matches (snd d)) (MediaService_deliver ms (snd (notify ms (map Some evs))))"
proof -
  have one: "MediaService_deliver ms (snd (notify ms (map Some evs))) =
           broadcast (bs_observers (source ms))
             (map (addAliasInfo (pub_breakpoints ms)) (filter matches evs))"
    by (simp add: notify_out MediaService_deliver_broadcast)
  have three: "map (\<lambda>c. (matches c, mediaQuery c))
             (map (addAliasInfo (pub_breakpoints ms)) (filter matches evs)) =
           map (\<lambda>c. (matches c, mediaQuery c)) (filter matches evs)"
    by (simp add: addAliasInfo_keeps)
  have four: "list_all (\<lambda>d. matches (snd d)) (MediaService_deliver ms (snd (notify ms (map Some evs))))"
    unfolding one by (auto simp: list_all_iff addAliasInfo_keeps dest!: broadcast_set)
  from one three four show ?thesis by (simp add: broadcast_to_one)
qed

theorem facade_delivers_activations_only_witness:
  "count_list (bs_observers (source (fst (MediaService_subscribe (fst (exampleSystem [])) (5::nat))))) 5 = 1 \<and>
   MediaService_deliver (fst (MediaService_subscribe (fst (exampleSystem [])) (5::nat)))
     (snd (notify (fst (MediaService_subscribe (fst (exampleSystem [])) (5::nat)))
        (map Some [MediaChange_new True ''Q1'', MediaChange_new False ''Q1'',
                   MediaChange_new True ''Q2'']))) =
     [(5, \<lparr>matches = True, mediaQuery = ''Q1'', mqAlias = ''r1'', suffix = ''R1''\<rparr>),
      (5, \<lparr>matches = True, mediaQuery = ''Q2'', mqAlias = ''r2'', suffix = ''R2''\<rparr>)]"
proof -
  let ?ms = "fst (MediaService_subscribe (fst (exampleSystem [])) (5::nat))"
  let ?evs = "[MediaChange_new True ''Q1'', MediaChange_new False ''Q1'', MediaChange_new True ''Q2'']"
  have ms: "?ms = \<lparr>pub_breakpoints = \<lparr>items = [exampleRange ''1'', exampleRange ''2'']\<rparr>,
      source = \<lparr>bs_value = MediaChange_new True ''all'', bs_observers = [5]\<rparr>,
      asyncQueue = ChangeQueue_new [exampleRange ''1'', exampleRange ''2'']\<rparr>"
    by (simp add: exampleSystem_none MediaService_subscribe_def bs_subscribe_def)
  from facade_delivers_activations_only [of ?ms ?evs 5]
  have "MediaService_deliver ?ms (snd (notify ?ms (map Some ?evs))) =
           broadcast (bs_observers (source ?ms))
             (map (addAliasInfo (pub_breakpoints ?ms)) (filter matches ?evs))"
    by blast
  then show ?thesis
    unfolding ms
    by (simp add: broadcast_def addAliasInfo_def mergeAlias_def findByQuery_def
        exampleRange_def MediaChange_new_def)
qed

subsection \<open>What a new subscriber is handed\<close>

lemma notify_value:
  "bs_value (source (fst (notify pub outs))) = last (bs_value (source pub) # emitted outs)"
proof (induction outs arbitrary: pub)
  case Nil
  show ?case by simp
next
  case (Cons c cs)
  show ?case by (cases c) (simp_all add: split_beta Cons.IH)
qed

lemma MediaMonitor_subscribe_replay:
  "snd (MediaMonitor_subscribe mon None ob) = [(ob, bs_value (source mon))]"
  by (simp add: MediaMonitor_subscribe_def bs_subscribe_def MediaMonitor_deliver_def observe_def
      mergeAlias_def)

lemma MediaService_subscribe_replay:
  "snd (MediaService_subscribe ms ob) =
     (if matches (bs_value (source ms))
      then [(ob, addAliasInfo (pub_breakpoints ms) (bs_value (source ms)))] else [])"
  by (simp add: MediaService_subscribe_def bs_subscribe_def MediaService_deliver_def
      buildObservable_def)

lemma registerQuery_calls:
  "snd (registerQuery win mm q cb) =
     (if q \<noteq> '''' \<and> currentlyMatches win mm q then [(cb, MediaChange_new True q)] else [])"
  by (auto simp: registerQuery_def currentlyMatches_def addListener_def onMQLEvent_def Let_def
      split: option.splits)

lemma currentlyMatches_registerQuery:
  "currentlyMatches win (fst (registerQuery win mm q cb)) q' = currentlyMatches win mm q'"
  by (auto simp: registerQuery_def currentlyMatches_def addListener_def Let_def
      split: option.splits)

lemma trueRanges_registerQuery:
  "trueRanges win (fst (registerQuery win mm q cb)) bps = trueRanges win mm bps"
  by (simp add: trueRanges_def currentlyMatches_registerQuery)

lemma idle_flush_one:
  assumes "idle cq" and "q \<in> bp_mediaQuery ` set (breakpoints cq)"
  shows "onMediaChange cq (MediaChange_new True q) = (cq, [Some (MediaChange_new True q)])"
proof -
  let ?c = "MediaChange_new True q"
  let ?cq = "(queueChanges cq ?c)\<lparr>debouncing := True\<rparr>"
  from assms(1) have act: "activated ?cq = [?c]" and bps: "breakpoints ?cq = breakpoints cq"
    and de: "deactivated ?cq = []"
    by (simp_all add: idle_def queueChanges_def MediaChange_new_def)
  from assms(2) have "list_ex (\<lambda>bp. list_ex (\<lambda>c. mediaQuery c = bp_mediaQuery bp) [?c]) (breakpoints cq)"
    by (auto simp: list_ex_iff MediaChange_new_def)
  then obtain bp where f: "firstRangeWithActivation (breakpoints cq) [?c] = Some bp"
    unfolding firstRangeWithActivation_def
    by (cases "find (\<lambda>bp. list_ex (\<lambda>c. mediaQuery c = bp_mediaQuery bp) [?c]) (breakpoints cq)")
      (auto simp: find_None_iff list_ex_iff)
  then have "mediaQuery ?c = bp_mediaQuery bp"
    unfolding firstRangeWithActivation_def by (auto simp: find_Some_iff)
  with f have "resolvedActivation (breakpoints cq) [?c] = Some ?c"
    by (simp add: resolvedActivation_def)
  then have out: "snd (processQueue ?cq) = [Some ?c]"
    by (simp add: processQueue_out de findFirstActivation_resolved act bps)
  from assms(1) have st: "fst (processQueue ?cq) = cq"
    by (simp add: processQueue_state idle_def queueChanges_def MediaChange_new_def)
  from assms(1) have "onMediaChange cq ?c = processQueue ?cq"
    by (simp add: onMediaChange_def Let_def idle_def queueChanges_def MediaChange_new_def)
  with out st show ?thesis by (simp add: prod_eq_iff)
qed

lemma idle_onChange:
  assumes "idle (asyncQueue pub)" and "q \<in> bp_mediaQuery ` set (breakpoints (asyncQueue pub))"
  shows "fst (onChange pub (MediaChange_new True q)) =
           pub\<lparr>source := (source pub)\<lparr>bs_value := MediaChange_new True q\<rparr>\<rparr>"
  by (simp add: onChange_def idle_flush_one [OF assms])

lemma trueRanges_Cons:
  "trueRanges win mm (bp # bps) =
     (if bp_mediaQuery bp \<noteq> '''' \<and> currentlyMatches win mm (bp_mediaQuery bp)
      then bp # trueRanges win mm bps else trueRanges win mm bps)"
  by (simp add: trueRanges_def)

lemma registerBreakpoints_value:
  fixes pub :: "'s Publisher"
  assumes "idle (asyncQueue pub)"
    and "bp_mediaQuery ` set bps \<subseteq> bp_mediaQuery ` set (breakpoints (asyncQueue pub))"
  shows "fst (fst (registerBreakpoints win cb bps pub mm)) =
           pub\<lparr>source := (source pub)\<lparr>bs_value :=
             (if trueRanges win mm bps = [] then bs_value (source pub)
              else MediaChange_new True (bp_mediaQuery (last (trueRanges win mm bps))))\<rparr>\<rparr>"
  using assms
proof (induction bps arbitrary: pub mm)
  case Nil
  show ?case by (simp add: trueRanges_def)
next
  case (Cons bp bps)
  let ?q = "bp_mediaQuery bp"
  let ?mm1 = "fst (registerQuery win mm ?q cb)"
  let ?pub1 = "fst (onChanges pub (map snd (snd (registerQuery win mm ?q cb))))"
  let ?T = "trueRanges win mm bps"
  have step: "fst (fst (registerBreakpoints win cb (bp # bps) pub mm)) =
      fst (fst (registerBreakpoints win cb bps ?pub1 ?mm1))"
    by (simp add: split_beta)
  from Cons.prems(2) have qin: "?q \<in> bp_mediaQuery ` set (breakpoints (asyncQueue pub))"
    by simp
  have ih: "fst (fst (registerBreakpoints win cb bps p ?mm1)) =
           p\<lparr>source := (source p)\<lparr>bs_value :=
             (if ?T = [] then bs_value (source p)
              else MediaChange_new True (bp_mediaQuery (last ?T)))\<rparr>\<rparr>"
    if "idle (asyncQueue p)"
      and "bp_mediaQuery ` set bps \<subseteq> bp_mediaQuery ` set (breakpoints (asyncQueue p))"
    for p :: "'s Publisher"
    using Cons.IH [OF that, of ?mm1] by (simp add: trueRanges_registerQuery)
  show ?case
  proof (cases "?q \<noteq> '''' \<and> currentlyMatches win mm ?q")
    case True
    then have p1: "?pub1 = pub\<lparr>source := (source pub)\<lparr>bs_value := MediaChange_new True ?q\<rparr>\<rparr>"
      by (simp add: registerQuery_calls split_beta idle_onChange [OF Cons.prems(1) qin])
    from Cons.prems have i1: "idle (asyncQueue ?pub1)"
      and s1: "bp_mediaQuery ` set bps \<subseteq> bp_mediaQuery ` set (breakpoints (asyncQueue ?pub1))"
      by (simp_all add: p1)
    from True have tr: "trueRanges win mm (bp # bps) = bp # ?T"
      by (simp add: trueRanges_Cons)
    show ?thesis
      unfolding step ih [OF i1 s1] tr unfolding p1 by simp
  next
    case False
    then have p1: "?pub1 = pub"
      by (auto simp: registerQuery_calls)
    from Cons.prems have i1: "idle (asyncQueue ?pub1)"
      and s1: "bp_mediaQuery ` set bps \<subseteq> bp_mediaQuery ` set (breakpoints (asyncQueue ?pub1))"
      by (simp_all add: p1)
    from False have tr: "trueRanges win mm (bp # bps) = ?T"
      by (simp add: trueRanges_Cons)
    show ?thesis
      unfolding step ih [OF i1 s1] tr unfolding p1 by simp
  qed
qed

lemma Publisher_new_value:
  "fst (Publisher_new win cb dq reg mm) =
     \<lparr>pub_breakpoints = reg,
      source = \<lparr>bs_value =
                 (if trueRanges win mm (items reg) = [] then MediaChange_new True dq
                  else MediaChange_new True (bp_mediaQuery (last (trueRanges win mm (items reg))))),
               bs_observers = []\<rparr>,
      asyncQueue = ChangeQueue_new (items reg)\<rparr>"
proof -
  let ?pub = "\<lparr>pub_breakpoints = reg, source = BehaviorSubject_new (MediaChange_new True dq),
      asyncQueue = ChangeQueue_new (items reg)\<rparr>"
  have "idle (asyncQueue ?pub)" by (simp add: idle_def ChangeQueue_new_def)
  moreover have "bp_mediaQuery ` set (items reg) \<subseteq>
      bp_mediaQuery ` set (breakpoints (asyncQueue ?pub))"
    by (simp add: ChangeQueue_new_def)
  ultimately show ?thesis
    unfolding Publisher_new_def
    by (simp add: registerBreakpoints_value BehaviorSubject_new_def)
qed

text \<open>
  Claim C10, as amended. A new subscriber of the monitor's unfiltered stream (\<^verbatim>\<open>observe()\<close>
  without an alias) is handed at once the value the source holds, which is the event emitted
  last. A new subscriber of the service is handed it, with the alias information injected,
  only when its \<^verbatim>\<open>matches\<close> is true, and nothing otherwise. After the constructor the
  source holds the synthetic \<^verbatim>\<open>new MediaChange(true)\<close>, with \<^verbatim>\<open>matches\<close> true, the default
  query of the \<^verbatim>\<open>MediaChange\<close> constructor and an empty alias, only when no registered range
  has a non-empty query that is true at that moment; otherwise it holds the activation of the
  last such range in registry order, which the registration emitted.
\<close>

theorem subscription_replays_held_event:
  fixes mon :: "'o MediaMonitor" and ms :: "'o MediaService" and pub :: "'s Publisher"
  shows
   "snd (MediaMonitor_subscribe mon None ob) = [(ob, bs_value (source mon))] \<and>
    snd (MediaService_subscribe ms ob) =
      (if matches (bs_value (source ms))
       then [(ob, addAliasInfo (pub_breakpoints ms) (bs_value (source ms)))] else []) \<and>
    bs_value (source (fst (notify pub outs))) = last (bs_value (source pub) # emitted outs) \<and>
    bs_value (source (fst (Publisher_new win cb dq reg mm :: 's Publisher \<times> 'cb MatchMedia))) =
      (if trueRanges win mm (items reg) = [] then MediaChange_new True dq
       else MediaChange_new True (bp_mediaQuery (last (trueRanges win mm (items reg))))) \<and>
    matches (MediaChange_new True dq) \<and> mediaQuery (MediaChange_new True dq) = dq \<and>
    mqAlias (MediaChange_new True dq) = ''''"
  by (simp add: MediaMonitor_subscribe_replay MediaService_subscribe_replay notify_value
      Publisher_new_value) (simp add: MediaChange_new_def)

theorem subscription_replays_held_event_witness:
  "snd (MediaMonitor_subscribe (fst (exampleSystem [])) None (5::nat)) =
     [(5, MediaChange_new True ''all'')] \<and>
   snd (MediaService_subscribe (fst (exampleSystem [])) (5::nat)) =
     [(5, MediaChange_new True ''all'')] \<and>
   bs_value (source (fst (exampleSystem [''Q1'', ''Q2'']) :: nat Publisher)) =
     MediaChange_new True ''Q2''"
proof -
  note t = subscription_replays_held_event [of "fst (exampleSystem [])" 5 "fst (exampleSystem [])"
      "fst (exampleSystem []) :: nat Publisher" "[]" "exampleWindow [''Q1'', ''Q2'']" 0 "''all''"
      "\<lparr>items = [exampleRange ''1'', exampleRange ''2'']\<rparr>" "MatchMedia_new :: nat MatchMedia"]
  have tr: "trueRanges (exampleWindow [''Q1'', ''Q2'']) (MatchMedia_new :: nat MatchMedia)
      (items \<lparr>items = [exampleRange ''1'', exampleRange ''2'']\<rparr>) =
      [exampleRange ''1'', exampleRange ''2'']"
    by (simp add: trueRanges_def currentlyMatches_def MatchMedia_new_def buildMQL_def
        exampleWindow_def exampleRange_def)
  from t have a: "snd (MediaMonitor_subscribe (fst (exampleSystem [])) None (5::nat)) =
      [(5, bs_value (source (fst (exampleSystem []) :: (string option \<times> nat) Publisher)))]"
    by blast
  from t have b: "snd (MediaService_subscribe (fst (exampleSystem [])) (5::nat)) =
      (if matches (bs_value (source (fst (exampleSystem []) :: nat Publisher)))
       then [(5, addAliasInfo (pub_breakpoints (fst (exampleSystem []) :: nat Publisher))
                   (bs_value (source (fst (exampleSystem []) :: nat Publisher))))] else [])"
    by blast
  from t have "bs_value (source (fst (Publisher_new (exampleWindow [''Q1'', ''Q2'']) 0 ''all''
        \<lparr>items = [exampleRange ''1'', exampleRange ''2'']\<rparr> (MatchMedia_new :: nat MatchMedia)
        :: nat Publisher \<times> nat MatchMedia))) =
      (if trueRanges (exampleWindow [''Q1'', ''Q2'']) (MatchMedia_new :: nat MatchMedia)
            (items \<lparr>items = [exampleRange ''1'', exampleRange ''2'']\<rparr>) = []
       then MediaChange_new True ''all''
       else MediaChange_new True (bp_mediaQuery (last
         (trueRanges (exampleWindow [''Q1'', ''Q2'']) (MatchMedia_new :: nat MatchMedia)
            (items \<lparr>items = [exampleRange ''1'', exampleRange ''2'']\<rparr>)))))"
    by blast
  then have c: "bs_value (source (fst (exampleSystem [''Q1'', ''Q2'']) :: nat Publisher)) =
      MediaChange_new True ''Q2''"
    unfolding exampleSystem_def tr by (simp add: exampleRange_def)
  from a b c show ?thesis
    by (simp add: exampleSystem_none addAliasInfo_def mergeAlias_def findByQuery_def
        exampleRange_def MediaChange_new_def)
qed

text \<open>
  Claim C10 as stated fails. After the query \<open>Q1\<close> turned true and then false, the event
  emitted last is the deactivation of \<open>Q1\<close>, and a new subscriber of the service is handed
  nothing. And when \<open>Q1\<close> is true as the publisher is constructed, a subscriber is handed the
  activation of \<open>Q1\<close> (by the service, with the alias \<open>r1\<close>) before any raw event, not an
  event without query and alias.
\<close>

theorem facade_subscription_without_replay:
  "bs_value (source (fst (fst (mediaChanges 0
       (fst (mediaChanges 0 (exampleSystem []) ''Q1'' True)) ''Q1'' False)))) =
     MediaChange_new False ''Q1'' \<and>
   snd (MediaService_subscribe (fst (fst (mediaChanges 0
       (fst (mediaChanges 0 (exampleSystem []) ''Q1'' True)) ''Q1'' False))) (5::nat)) = [] \<and>
   snd (MediaMonitor_subscribe (fst (exampleSystem [''Q1''])) None (5::nat)) =
     [(5, MediaChange_new True ''Q1'')] \<and>
   snd (MediaService_subscribe (fst (exampleSystem [''Q1''])) (5::nat)) =
     [(5, \<lparr>matches = True, mediaQuery = ''Q1'', mqAlias = ''r1'', suffix = ''R1''\<rparr>)]"
  by (simp add: exampleSystem_deactivated exampleSystem_Q1 MediaService_subscribe_def
      MediaMonitor_subscribe_def MediaMonitor_deliver_def observe_def
      bs_subscribe_def MediaService_deliver_def buildObservable_def addAliasInfo_def
      mergeAlias_def findByQuery_def exampleRange_def MediaChange_new_def)

end
